theory Spec2Isabelle
  imports Main "HOL-Library.Sublist" "HOL-Library.Log_Nat" "HOL-Library.AList"
begin

section \<open>Python values\<close>

text \<open>
  A Python \<open>str\<close> is modelled as a \<^typ>\<open>string\<close>: one \<^typ>\<open>char\<close> per code point, for the
  code points 0 to 255. Exceptions are values of \<open>exn\<close>, and a computation that may raise
  has a result of type \<open>exn + 'a\<close> (\<open>Inl\<close> is the raised exception). Only subclasses of
  \<open>Exception\<close> are modelled.
\<close>

datatype exn =
    ValueError | JSONDecodeError | UnicodeEncodeError | AttributeError | TypeError | KeyError
  | IndexError | RequestException | RecursionError

text \<open>\<open>andthen r f\<close>: run \<open>f\<close> on the value of \<open>r\<close>, unless \<open>r\<close> raised.\<close>

definition andthen :: "exn + 'a \<Rightarrow> ('a \<Rightarrow> exn + 'b) \<Rightarrow> exn + 'b" where
  "andthen r f = (case r of Inl e \<Rightarrow> Inl e | Inr v \<Rightarrow> f v)"

text \<open>\<open>except r handles h\<close>: the \<open>try: r except <handles>: h\<close> statement.\<close>

definition except :: "exn + 'a \<Rightarrow> (exn \<Rightarrow> bool) \<Rightarrow> (exn + 'a) \<Rightarrow> exn + 'a" where
  "except r handles h = (case r of Inl e \<Rightarrow> if handles e then h else Inl e | Inr v \<Rightarrow> Inr v)"

text \<open>\<open>json.JSONDecodeError\<close> and \<open>UnicodeEncodeError\<close> are subclasses of \<open>ValueError\<close>.\<close>

definition is_ValueError :: "exn \<Rightarrow> bool" where
  "is_ValueError e = (e = ValueError \<or> e = JSONDecodeError \<or> e = UnicodeEncodeError)"

definition is_JSONDecodeError :: "exn \<Rightarrow> bool" where
  "is_JSONDecodeError e = (e = JSONDecodeError)"

definition is_Exception :: "exn \<Rightarrow> bool" where
  "is_Exception e = True"

subsection \<open>Printing\<close>

text \<open>
  \<open>print(text)\<close> writes a text to the standard output, and raises when it cannot:
  \<open>UnicodeEncodeError\<close> when the encoding of the stream lacks a character of the text,
  \<open>ValueError\<close> when the stream is closed. A console says, for each text, whether it is
  written (\<open>None\<close>) or which exception \<open>print\<close> raises.
\<close>

type_synonym console = "string \<Rightarrow> exn option"

definition py_print :: "console \<Rightarrow> string \<Rightarrow> exn + unit" where
  "py_print out text = (case out text of None \<Rightarrow> Inr () | Some e \<Rightarrow> Inl e)"

subsection \<open>Floats\<close>

text \<open>
  A Python \<open>float\<close> is an IEEE binary64 number. A finite one is modelled by the rational
  it denotes (so \<open>-0.0\<close> and \<open>0.0\<close> are one value, as they are for \<open>==\<close>).
  \<open>binary64 x\<close> is the float nearest to the rational \<open>x\<close>, ties to the even mantissa,
  which is how \<open>float(s)\<close> and a float literal read a decimal numeral.
\<close>

datatype pyfloat = Finite rat | PosInf | NegInf | NaN

definition pow2 :: "int \<Rightarrow> rat" where
  "pow2 e = (if 0 \<le> e then 2 ^ nat e else 1 / 2 ^ nat (- e))"

definition round_half_even :: "rat \<Rightarrow> int" where
  "round_half_even x =
     (let f = \<lfloor>x\<rfloor>; d = x - of_int f
      in if d < 1 / 2 then f else if 1 / 2 < d then f + 1 else if even f then f else f + 1)"

text \<open>\<open>ilog2 x\<close> is \<open>\<lfloor>log\<^sub>2 x\<rfloor>\<close> for a positive rational \<open>x\<close>.\<close>

definition ilog2 :: "rat \<Rightarrow> int" where
  "ilog2 x = (case quotient_of x of (a, b) \<Rightarrow>
      let k = bitlen a - bitlen b in if pow2 k \<le> x then k else k - 1)"

definition binary64 :: "rat \<Rightarrow> pyfloat" where
  "binary64 x =
     (if x = 0 then Finite 0
      else let a = \<bar>x\<bar>; e = ilog2 a; p = max (e - 52) (- 1074);
               y = of_int (round_half_even (a / pow2 p)) * pow2 p
           in if pow2 1024 \<le> y then (if 0 < x then PosInf else NegInf)
              else Finite (sgn x * y))"

text \<open>\<open>decimal m k\<close> is the float written \<open>m \<times> 10\<^sup>-\<^sup>k\<close>: \<open>decimal 515074 4\<close> is \<open>51.5074\<close>.\<close>

definition decimal :: "int \<Rightarrow> nat \<Rightarrow> pyfloat" where
  "decimal m k = binary64 (of_int m / 10 ^ k)"

text \<open>The comparison \<open>a <= b\<close> of two floats.\<close>

fun float_le :: "pyfloat \<Rightarrow> pyfloat \<Rightarrow> bool" where
  "float_le NaN _ = False"
| "float_le _ NaN = False"
| "float_le (Finite a) (Finite b) = (a \<le> b)"
| "float_le NegInf _ = True"
| "float_le _ PosInf = True"
| "float_le PosInf _ = False"
| "float_le _ NegInf = False"

subsection \<open>Strings\<close>

text \<open>\<open>str.isspace\<close> on one character; \<open>str.strip()\<close> and the regex class \<open>\s\<close> use it.\<close>

definition is_space :: "char \<Rightarrow> bool" where
  "is_space c = (c \<in> set [CHR 0x09, CHR 0x0A, CHR 0x0B, CHR 0x0C, CHR 0x0D,
                           CHR 0x1C, CHR 0x1D, CHR 0x1E, CHR 0x1F, CHR 0x20, CHR 0x85, CHR 0xA0])"

text \<open>The regex class \<open>\d\<close>.\<close>

definition is_digit :: "char \<Rightarrow> bool" where
  "is_digit c = (c \<in> set ''0123456789'')"

definition strip :: "string \<Rightarrow> string" where
  "strip s = rev (dropWhile is_space (rev (dropWhile is_space s)))"

text \<open>\<open>s.replace(c, '')\<close> for a one-character \<open>c\<close>.\<close>

definition remove_char :: "char \<Rightarrow> string \<Rightarrow> string" where
  "remove_char c s = filter (\<lambda>x. x \<noteq> c) s"

text \<open>\<open>str.lower\<close> on one character and on a string.\<close>

definition lower_char :: "char \<Rightarrow> char" where
  "lower_char c =
     (let n = of_char c :: nat
      in if (65 \<le> n \<and> n \<le> 90) \<or> (192 \<le> n \<and> n \<le> 222 \<and> n \<noteq> 215) then char_of (n + 32) else c)"

definition lower :: "string \<Rightarrow> string" where
  "lower s = map lower_char s"

text \<open>
  \<open>find_first sub s\<close> is the least index at which \<open>sub\<close> occurs in \<open>s\<close>, \<open>find_last\<close>
  the greatest one.
\<close>

fun find_first :: "string \<Rightarrow> string \<Rightarrow> nat option" where
  "find_first sub [] = (if sub = [] then Some 0 else None)"
| "find_first sub (c # cs) =
     (if prefix sub (c # cs) then Some 0 else map_option Suc (find_first sub cs))"

fun find_last :: "string \<Rightarrow> string \<Rightarrow> nat option" where
  "find_last sub [] = (if sub = [] then Some 0 else None)"
| "find_last sub (c # cs) =
     (case find_last sub cs of
        Some i \<Rightarrow> Some (Suc i)
      | None \<Rightarrow> if prefix sub (c # cs) then Some 0 else None)"

text \<open>\<open>sub in s\<close>, \<open>s.find(sub, start)\<close>, \<open>s.rfind(sub)\<close> and the slice \<open>s[i:j]\<close>.\<close>

definition py_in :: "string \<Rightarrow> string \<Rightarrow> bool" where
  "py_in sub s = (find_first sub s \<noteq> None)"

definition py_find :: "string \<Rightarrow> string \<Rightarrow> int \<Rightarrow> int" where
  "py_find s sub start =
     (let a = (if start < 0 then nat (int (length s) + start) else nat start)
      in if length s < a then - 1
         else case find_first sub (drop a s) of None \<Rightarrow> - 1 | Some i \<Rightarrow> int (a + i))"

definition py_rfind :: "string \<Rightarrow> string \<Rightarrow> int" where
  "py_rfind s sub = (case find_last sub s of None \<Rightarrow> - 1 | Some i \<Rightarrow> int i)"

definition slice_index :: "nat \<Rightarrow> int \<Rightarrow> nat" where
  "slice_index n k = (if k < 0 then nat (int n + k) else min (nat k) n)"

definition py_slice :: "string \<Rightarrow> int \<Rightarrow> int \<Rightarrow> string" where
  "py_slice s i j =
     (let a = slice_index (length s) i; b = slice_index (length s) j
      in take (b - a) (drop a s))"

section \<open>decoderService.py: the coordinate pattern\<close>

subsection \<open>Regular expressions\<close>

text \<open>
  The fragment of Python's \<open>re\<close> syntax that \<open>coord_pattern\<close> uses: the anchors \<open>^\<close> and
  \<open>$\<close>, a character, the classes \<open>\d\<close> and \<open>\s\<close>, a set \<open>[...]\<close>, the greedy quantifiers
  \<open>?\<close>, \<open>*\<close> and \<open>+\<close> on one of these, and a capturing group around a sequence of them.
\<close>

datatype cls = Lit char | Digit | Space

datatype atom = Single cls | Set "cls list"

datatype quant = Once | Opt | Star | Plus

datatype node = Bol | Eol | Rep atom quant | Group "(atom \<times> quant) list"

fun cls_accepts :: "cls \<Rightarrow> char \<Rightarrow> bool" where
  "cls_accepts (Lit l) c = (c = l)"
| "cls_accepts Digit c = is_digit c"
| "cls_accepts Space c = is_space c"

fun accepts :: "atom \<Rightarrow> char \<Rightarrow> bool" where
  "accepts (Single k) c = cls_accepts k c"
| "accepts (Set ks) c = list_ex (\<lambda>k. cls_accepts k c) ks"

text \<open>
  Matching is by backtracking: each function lists every way to match at the head of the
  subject, as (matched text, rest of the subject), in the order the engine tries them. A
  greedy quantifier tries the longest repetition first.
\<close>

fun star :: "(char \<Rightarrow> bool) \<Rightarrow> string \<Rightarrow> (string \<times> string) list" where
  "star p [] = [([], [])]"
| "star p (c # cs) =
     (if p c then map (\<lambda>(m, r). (c # m, r)) (star p cs) @ [([], c # cs)] else [([], c # cs)])"

fun rep :: "(char \<Rightarrow> bool) \<Rightarrow> quant \<Rightarrow> string \<Rightarrow> (string \<times> string) list" where
  "rep p Star s = star p s"
| "rep p Plus s = filter (\<lambda>(m, r). m \<noteq> []) (star p s)"
| "rep p Opt [] = [([], [])]"
| "rep p Opt (c # cs) = (if p c then [([c], cs), ([], c # cs)] else [([], c # cs)])"
| "rep p Once [] = []"
| "rep p Once (c # cs) = (if p c then [([c], cs)] else [])"

fun seq :: "(atom \<times> quant) list \<Rightarrow> string \<Rightarrow> (string \<times> string) list" where
  "seq [] s = [([], s)]"
| "seq ((a, q) # items) s =
     concat (map (\<lambda>(m, r). map (\<lambda>(m', r'). (m @ m', r')) (seq items r)) (rep (accepts a) q s))"

text \<open>
  \<open>nodes ns at_start gs s\<close> lists the captured groups of every match of the nodes \<open>ns\<close>
  against \<open>s\<close>; \<open>at_start\<close> says that nothing has been consumed yet, \<open>gs\<close> are the groups
  captured so far. \<open>$\<close> matches at the end of the subject and just before a newline that
  ends it.
\<close>

fun nodes :: "node list \<Rightarrow> bool \<Rightarrow> string list \<Rightarrow> string \<Rightarrow> string list list" where
  "nodes [] at_start gs s = [gs]"
| "nodes (Bol # ns) at_start gs s = (if at_start then nodes ns at_start gs s else [])"
| "nodes (Eol # ns) at_start gs s =
     (if s = [] \<or> s = [CHR 0x0A] then nodes ns at_start gs s else [])"
| "nodes (Rep a q # ns) at_start gs s =
     concat (map (\<lambda>(m, r). nodes ns (at_start \<and> m = []) gs r) (rep (accepts a) q s))"
| "nodes (Group items # ns) at_start gs s =
     concat (map (\<lambda>(m, r). nodes ns (at_start \<and> m = []) (gs @ [m]) r) (seq items s))"

text \<open>\<open>re.match(pattern, s)\<close>: the groups of the first match at the start of \<open>s\<close>, if any.\<close>

definition re_match :: "node list \<Rightarrow> string \<Rightarrow> string list option" where
  "re_match pattern s = (case nodes pattern True [] s of [] \<Rightarrow> None | gs # _ \<Rightarrow> Some gs)"

text \<open>\<open>match.group(i)\<close> for \<open>i \<ge> 1\<close>.\<close>

definition group :: "string list \<Rightarrow> nat \<Rightarrow> exn + string" where
  "group gs i = (if 1 \<le> i \<and> i \<le> length gs then Inr (gs ! (i - 1)) else Inl IndexError)"

subsection \<open>\<open>float(s)\<close> on a decimal numeral\<close>

text \<open>
  \<open>py_float\<close> is \<open>float(s)\<close> for the numerals \<open>-?\d+(\.\d*)?\<close>, the only texts the source
  passes to it. For any other text this model answers \<open>ValueError\<close>; Python's \<open>float\<close>
  reads more (an exponent, a leading \<open>+\<close> or \<open>.\<close>, \<open>inf\<close>, \<open>nan\<close>, surrounding blanks).
\<close>

definition digits_value :: "string \<Rightarrow> int" where
  "digits_value ds = foldl (\<lambda>n c. 10 * n + (of_char c - 48)) 0 ds"

definition py_float :: "string \<Rightarrow> exn + pyfloat" where
  "py_float s =
     (let neg = (s \<noteq> [] \<and> hd s = CHR ''-'');
          body = (if neg then tl s else s);
          ip = takeWhile is_digit body;
          rest = dropWhile is_digit body;
          fp = (if rest = [] then [] else tl rest)
      in if ip \<noteq> [] \<and> (rest = [] \<or> hd rest = CHR ''.'') \<and> list_all is_digit fp
         then Inr (decimal ((if neg then - 1 else 1) * digits_value (ip @ fp)) (length fp))
         else Inl ValueError)"

subsection \<open>\<open>GeocodingService._is_coordinate_pair\<close>\<close>

text \<open>\<open>coord_pattern = r'^(-?\d+\.?\d*)[,\s]+(-?\d+\.?\d*)$'\<close>\<close>

definition number_group :: "(atom \<times> quant) list" where
  "number_group =
     [(Single (Lit (CHR ''-'')), Opt), (Single Digit, Plus), (Single (Lit (CHR ''.'')), Opt),
      (Single Digit, Star)]"

definition coord_pattern :: "node list" where
  "coord_pattern =
     [Bol, Group number_group, Rep (Set [Lit (CHR '',''), Space]) Plus, Group number_group, Eol]"

definition clean :: "string \<Rightarrow> string" where
  "clean location = strip (remove_char (CHR '')'') (remove_char (CHR ''('') (strip location)))"

definition in_range :: "pyfloat \<Rightarrow> pyfloat \<Rightarrow> bool" where
  "in_range lat lon =
     (float_le (Finite (- 90)) lat \<and> float_le lat (Finite 90) \<and>
      float_le (Finite (- 180)) lon \<and> float_le lon (Finite 180))"

definition is_coordinate_pair :: "string \<Rightarrow> exn + (pyfloat \<times> pyfloat) option" where
  "is_coordinate_pair location =
     (let cleaned = clean location
      in case re_match coord_pattern cleaned of
           None \<Rightarrow> Inr None
         | Some gs \<Rightarrow>
             except
               (andthen (group gs 1) (\<lambda>g1. andthen (py_float g1) (\<lambda>lat.
                andthen (group gs 2) (\<lambda>g2. andthen (py_float g2) (\<lambda>lon.
                  if in_range lat lon then Inr (Some (lat, lon)) else Inr None)))))
               is_ValueError (Inr None))"

subsection \<open>\<open>GeocodingService._geocode_nominatim\<close>\<close>

text \<open>
  What the statements of the \<open>try\<close> block do is decided by the network:
  \<^item> \<open>Raised e text\<close>: one of them raised \<open>e\<close>, whose \<open>str(e)\<close> is \<open>text\<close>: \<open>session.get\<close>
    (a transport error, the timeout of 10 seconds), \<open>raise_for_status\<close> (an HTTP error
    status), \<open>response.json()\<close> (a body that is not JSON), or \<open>data[0]['lat']\<close>,
    \<open>data[0]['lon']\<close> and \<open>float\<close> (a payload of another shape);
  \<^item> \<open>NoData\<close>: \<open>data\<close> is falsy, an empty list of results;
  \<^item> \<open>Coordinates lat lon\<close>: \<open>float(data[0]['lat'])\<close> and \<open>float(data[0]['lon'])\<close>.

  The handler \<open>except Exception as e\<close> prints \<open>f"Geocoding failed: {e}"\<close> and falls through
  to \<open>return None\<close>; an exception that \<open>print\<close> raises inside the handler leaves the
  function.
\<close>

datatype lookup = Raised exn string | NoData | Coordinates pyfloat pyfloat

definition geocoding_failed :: "string \<Rightarrow> string" where
  "geocoding_failed text = ''Geocoding failed: '' @ text"

definition geocode_nominatim ::
    "(string \<Rightarrow> lookup) \<Rightarrow> console \<Rightarrow> string \<Rightarrow> exn + (pyfloat \<times> pyfloat) option" where
  "geocode_nominatim net out location =
     (case net location of
        Raised e text \<Rightarrow>
          except (Inl e) is_Exception
            (andthen (py_print out (geocoding_failed text)) (\<lambda>_. Inr None))
      | NoData \<Rightarrow> Inr None
      | Coordinates lat lon \<Rightarrow> Inr (Some (lat, lon)))"

subsection \<open>\<open>GeocodingService.get_coordinates\<close>\<close>

text \<open>
  The dictionary \<open>major_cities\<close>, in insertion order, which is the order \<open>items()\<close> yields.
  A negative literal is the negation of a positive one; rounding is symmetric, so
  \<open>decimal (- m) k\<close> is that float.
\<close>

definition major_cities :: "(string \<times> pyfloat \<times> pyfloat) list" where
  "major_cities =
     [(''london'', (decimal 515074 4, decimal (- 1278) 4)),
      (''new york'', (decimal 407128 4, decimal (- 740060) 4)),
      (''paris'', (decimal 488566 4, decimal 23522 4)),
      (''tokyo'', (decimal 356762 4, decimal 1396503 4)),
      (''sydney'', (decimal (- 338688) 4, decimal 1512093 4)),
      (''berlin'', (decimal 525200 4, decimal 134050 4)),
      (''madrid'', (decimal 404168 4, decimal (- 37038) 4)),
      (''rome'', (decimal 419028 4, decimal 124964 4)),
      (''kyiv'', (decimal 5044973 5, decimal 3052474 5)),
      (''beijing'', (decimal 399042 4, decimal 1164074 4))]"

text \<open>The loop \<open>for city, coords in major_cities.items()\<close>.\<close>

fun city_loop :: "(string \<times> pyfloat \<times> pyfloat) list \<Rightarrow> string \<Rightarrow> (pyfloat \<times> pyfloat) option" where
  "city_loop [] location_lower = None"
| "city_loop ((city, coords) # rest) location_lower =
     (if py_in city location_lower then Some coords else city_loop rest location_lower)"

text \<open>The notice \<open>f"Location '{location}' not found, defaulting to London"\<close>.\<close>

definition location_not_found :: "string \<Rightarrow> string" where
  "location_not_found location =
     ''Location '' @ [CHR 0x27] @ location @ [CHR 0x27] @ '' not found, defaulting to London''"

definition get_coordinates ::
    "(string \<Rightarrow> lookup) \<Rightarrow> console \<Rightarrow> string \<Rightarrow> exn + pyfloat \<times> pyfloat" where
  "get_coordinates net out location =
     andthen (is_coordinate_pair location) (\<lambda>coords.
       case coords of
         Some c \<Rightarrow> Inr c
       | None \<Rightarrow>
           andthen (geocode_nominatim net out location) (\<lambda>coords.
             case coords of
               Some c \<Rightarrow> Inr c
             | None \<Rightarrow>
                 (case city_loop major_cities (lower location) of
                    Some c \<Rightarrow> Inr c
                  | None \<Rightarrow>
                      andthen (py_print out (location_not_found location)) (\<lambda>_.
                        Inr (decimal 515074 4, decimal (- 1278) 4)))))"

section \<open>main.py: the request interpreter\<close>

subsection \<open>Objects\<close>

text \<open>
  The objects a request is made of: what \<open>json.loads\<close> can return, and the dictionaries
  \<open>parse_user_request\<close> builds. A \<open>dict\<close> is an association list read with \<open>map_of\<close>.
\<close>

datatype pyval =
    PNone | PBool bool | PInt int | PFloat pyfloat | PStr string
  | PList "pyval list" | PDict "(string \<times> pyval) list"

text \<open>The truth value of an object, which \<open>not x\<close> negates.\<close>

fun truthy :: "pyval \<Rightarrow> bool" where
  "truthy PNone = False"
| "truthy (PBool b) = b"
| "truthy (PInt i) = (i \<noteq> 0)"
| "truthy (PFloat f) = (f \<noteq> Finite 0)"
| "truthy (PStr s) = (s \<noteq> [])"
| "truthy (PList xs) = (xs \<noteq> [])"
| "truthy (PDict kvs) = (kvs \<noteq> [])"

text \<open>\<open>d.get(key, default)\<close>, \<open>d[key]\<close> and \<open>d[key] = v\<close>; only a \<open>dict\<close> has \<open>get\<close>.\<close>

definition dict_get :: "pyval \<Rightarrow> string \<Rightarrow> pyval \<Rightarrow> exn + pyval" where
  "dict_get d key dflt =
     (case d of
        PDict kvs \<Rightarrow> Inr (case map_of kvs key of Some v \<Rightarrow> v | None \<Rightarrow> dflt)
      | _ \<Rightarrow> Inl AttributeError)"

definition dict_item :: "pyval \<Rightarrow> string \<Rightarrow> exn + pyval" where
  "dict_item d key =
     (case d of
        PDict kvs \<Rightarrow> (case map_of kvs key of Some v \<Rightarrow> Inr v | None \<Rightarrow> Inl KeyError)
      | _ \<Rightarrow> Inl TypeError)"

definition dict_set :: "pyval \<Rightarrow> string \<Rightarrow> pyval \<Rightarrow> exn + pyval" where
  "dict_set d key v =
     (case d of
        PDict kvs \<Rightarrow> Inr (PDict (AList.update key v kvs))
      | _ \<Rightarrow> Inl TypeError)"

subsection \<open>\<open>WeatherSummarizer._extract_json\<close>\<close>

text \<open>The two branches that remove a code fence (lines 161 to 168).\<close>

definition unfence :: "string \<Rightarrow> string" where
  "unfence cleaned =
     (if py_in ''```json'' cleaned then
        let start = py_find cleaned ''```json'' 0 + 7;
            end' = py_find cleaned ''```'' start
        in strip (py_slice cleaned start end')
      else if py_in ''```'' cleaned then
        let start = py_find cleaned ''```'' 0 + 3;
            end' = py_find cleaned ''```'' start
        in strip (py_slice cleaned start end')
      else cleaned)"

text \<open>The search for the JSON object (lines 171 to 174).\<close>

definition json_object :: "string \<Rightarrow> string" where
  "json_object cleaned =
     (let json_start = py_find cleaned ''{'' 0;
          json_end = py_rfind cleaned ''}'' + 1
      in if json_start \<ge> 0 \<and> json_end > json_start then py_slice cleaned json_start json_end
         else cleaned)"

definition extract_json :: "string \<Rightarrow> string" where
  "extract_json response = json_object (unfence (strip response))"

subsection \<open>\<open>WeatherSummarizer.parse_user_request\<close>\<close>

text \<open>
  The world outside the program:
  \<^item> \<open>generate_response\<close>: what \<open>LLMHandler.generate_response\<close> returns for the messages of
    \<open>parse_user_request\<close>, as a function of the user message, the only part that varies.
    It is \<open>response.get('message', {}).get('content', '')\<close>, the value the service sent
    under \<open>content\<close>, of any JSON type, or the text \<open>f"Error generating response: {e}"\<close>
    when the request raised;
  \<^item> \<open>json_loads\<close>: \<open>json.loads\<close>;
  \<^item> \<open>format_float\<close>: the text of a float in an f-string;
  \<^item> \<open>nominatim\<close>: the geocoding lookup;
  \<^item> \<open>console\<close>: the standard output.
\<close>

record world =
  generate_response :: "string \<Rightarrow> pyval"
  json_loads :: "string \<Rightarrow> exn + pyval"
  format_float :: "pyfloat \<Rightarrow> string"
  nominatim :: "string \<Rightarrow> lookup"
  console :: "string \<Rightarrow> exn option"

text \<open>
  The call \<open>self._extract_json(response)\<close>: its first statement \<open>response.strip()\<close> exists on
  a \<open>str\<close> only.
\<close>

definition call_extract_json :: "pyval \<Rightarrow> exn + string" where
  "call_extract_json response =
     (case response of
        PStr s \<Rightarrow> Inr (extract_json s)
      | _ \<Rightarrow> Inl AttributeError)"

definition parse_user_request :: "world \<Rightarrow> string \<Rightarrow> exn + pyval" where
  "parse_user_request w user_input =
     andthen (is_coordinate_pair user_input) (\<lambda>coords.
       case coords of
         Some (lat, lon) \<Rightarrow>
           Inr (PDict
             [(''location'', PStr (format_float w lat @ '', '' @ format_float w lon)),
              (''latitude'', PFloat lat),
              (''longitude'', PFloat lon),
              (''weather_type'', PStr ''current''),
              (''specific_requirements'', PStr ''weather information for coordinates'')])
       | None \<Rightarrow>
           let response = generate_response w (''Parse this: '' @ user_input)
           in andthen (call_extract_json response) (\<lambda>cleaned_response.
                except (json_loads w cleaned_response) is_JSONDecodeError
                  (Inr (PDict
                    [(''location'', PStr ''unknown''),
                     (''latitude'', PNone),
                     (''longitude'', PNone),
                     (''weather_type'', PStr ''current''),
                     (''specific_requirements'', PStr user_input),
                     (''raw_response'', response)]))))"

subsection \<open>\<open>WeatherSummarizer.run\<close>, up to the weather request\<close>

text \<open>\<open>WeatherSummarizer.get_coordinates\<close>: \<open>location.strip()\<close> exists on a \<open>str\<close> only.\<close>

definition summarizer_get_coordinates :: "world \<Rightarrow> pyval \<Rightarrow> exn + pyfloat \<times> pyfloat" where
  "summarizer_get_coordinates w location =
     (case location of
        PStr s \<Rightarrow> get_coordinates (nominatim w) (console w) s
      | _ \<Rightarrow> Inl AttributeError)"

text \<open>
  The condition \<open>not parsed_request.get('latitude') or not parsed_request.get('longitude')\<close>;
  \<open>or\<close> evaluates its second operand only when the first is false.
\<close>

definition coordinates_missing :: "pyval \<Rightarrow> exn + bool" where
  "coordinates_missing parsed_request =
     andthen (dict_get parsed_request ''latitude'' PNone) (\<lambda>lat.
       if \<not> truthy lat then Inr True
       else andthen (dict_get parsed_request ''longitude'' PNone) (\<lambda>lon. Inr (\<not> truthy lon)))"

text \<open>The statement \<open>if not ... : ...\<close> of \<open>run\<close> (lines 258 to 262).\<close>

definition resolve :: "world \<Rightarrow> pyval \<Rightarrow> exn + pyval" where
  "resolve w parsed_request =
     andthen (coordinates_missing parsed_request) (\<lambda>missing.
       if missing then
         andthen (dict_get parsed_request ''location'' (PStr ''London'')) (\<lambda>location.
         andthen (summarizer_get_coordinates w location) (\<lambda>(lat, lon).
         andthen (dict_set parsed_request ''latitude'' (PFloat lat)) (\<lambda>parsed_request.
           dict_set parsed_request ''longitude'' (PFloat lon))))
       else Inr parsed_request)"

text \<open>
  The arguments of \<open>self.weather_api.get_weather_data\<close> (lines 266 to 269), and the turn
  from the user's input to these arguments (lines 255 to 269).
\<close>

definition weather_arguments :: "pyval \<Rightarrow> exn + pyval \<times> pyval" where
  "weather_arguments parsed_request =
     andthen (dict_item parsed_request ''latitude'') (\<lambda>lat.
     andthen (dict_item parsed_request ''longitude'') (\<lambda>lon. Inr (lat, lon)))"

definition run :: "world \<Rightarrow> string \<Rightarrow> exn + pyval \<times> pyval" where
  "run w user_input =
     andthen (parse_user_request w user_input) (\<lambda>parsed_request.
     andthen (resolve w parsed_request) weather_arguments)"

section \<open>Specification vocabulary\<close>

subsection \<open>The text of a coordinate pair\<close>

text \<open>
  The pattern in words: a number is an optional minus sign, one or more digits, an
  optional point and zero or more digits; a separator is one or more characters that are
  a comma or white space; a coordinate text is a number, a separator and a number, with
  nothing before or after.
\<close>

definition number_text :: "string \<Rightarrow> bool" where
  "number_text x \<longleftrightarrow>
     (\<exists>sg ip dt fp. x = sg @ ip @ dt @ fp \<and> (sg = [] \<or> sg = ''-'') \<and> ip \<noteq> [] \<and>
        list_all is_digit ip \<and> (dt = [] \<or> dt = ''.'') \<and> list_all is_digit fp)"

definition sep_char :: "char \<Rightarrow> bool" where
  "sep_char c = (c = CHR '','' \<or> is_space c)"

definition separator :: "string \<Rightarrow> bool" where
  "separator x \<longleftrightarrow> x \<noteq> [] \<and> list_all sep_char x"

definition coordinate_text :: "string \<Rightarrow> string \<Rightarrow> string \<Rightarrow> bool" where
  "coordinate_text s a b \<longleftrightarrow> (\<exists>sep. s = a @ sep @ b \<and> number_text a \<and> separator sep \<and> number_text b)"

definition matches_coordinate_text :: "string \<Rightarrow> bool" where
  "matches_coordinate_text s \<longleftrightarrow> (\<exists>a b. coordinate_text s a b)"

text \<open>The characters a coordinate text can contain.\<close>

definition coordinate_char :: "char \<Rightarrow> bool" where
  "coordinate_char c = (c = CHR ''-'' \<or> c = CHR ''.'' \<or> is_digit c \<or> sep_char c)"

text \<open>
  Stripping the white space and the parentheses that surround a text, which leaves the
  ones inside it.
\<close>

definition paren_or_space :: "char \<Rightarrow> bool" where
  "paren_or_space c = (is_space c \<or> c = CHR ''('' \<or> c = CHR '')'')"

definition strip_surrounding :: "string \<Rightarrow> string" where
  "strip_surrounding s = rev (dropWhile paren_or_space (rev (dropWhile paren_or_space s)))"

subsection \<open>Notices and consoles\<close>

text \<open>
  \<open>failure_notice_written net out location\<close>: when the lookup of \<open>location\<close> raises,
  \<open>print\<close> writes the notice of the handler. \<open>default_notice_written out location\<close>:
  \<open>print\<close> writes the notice that precedes the default.
\<close>

definition failure_notice_written :: "(string \<Rightarrow> lookup) \<Rightarrow> console \<Rightarrow> string \<Rightarrow> bool" where
  "failure_notice_written net out location =
     (case net location of
        Raised e text \<Rightarrow> out (geocoding_failed text) = None
      | NoData \<Rightarrow> True
      | Coordinates lat lon \<Rightarrow> True)"

definition default_notice_written :: "console \<Rightarrow> string \<Rightarrow> bool" where
  "default_notice_written out location = (out (location_not_found location) = None)"

text \<open>
  Three consoles: one that writes every text, one whose encoding is ASCII, on which
  \<open>print\<close> raises \<open>UnicodeEncodeError\<close> for a text with any other character, and one that
  is closed, on which \<open>print\<close> raises \<open>ValueError\<close>.
\<close>

definition terminal :: console where
  "terminal text = None"

definition ascii_console :: console where
  "ascii_console text =
     (if list_all (\<lambda>c. of_char c < (128 :: nat)) text then None else Some UnicodeEncodeError)"

definition closed_console :: console where
  "closed_console text = Some ValueError"

text \<open>
  Two behaviours of the lookup: the service cannot be reached, and the service has no
  result. And an input with a letter outside ASCII, \<open>caf\<close> and U+00E9.
\<close>

definition unreachable :: "string \<Rightarrow> lookup" where
  "unreachable location = Raised RequestException ''Connection refused''"

definition no_results :: "string \<Rightarrow> lookup" where
  "no_results location = NoData"

definition cafe :: string where
  "cafe = ''caf'' @ [CHR 0xE9]"

subsection \<open>Requests and example worlds\<close>



text \<open>
  Worlds for the examples: the geocoding service cannot be reached, the console writes,
  the model gives one fixed reply, and \<open>json_loads\<close> is \<open>json.loads\<close> at that reply
  (elsewhere it is not consulted). \<open>format_float\<close> is consulted on the direct path only,
  where its result never decides an example.
\<close>

definition no_float_text :: "pyfloat \<Rightarrow> string" where
  "no_float_text f = []"

definition prose_reply :: string where
  "prose_reply = ''Sorry, I cannot help with that.''"

definition prose_world :: world where
  "prose_world =
     \<lparr>generate_response = (\<lambda>message. PStr prose_reply),
      json_loads = (\<lambda>s. if s = ''null'' then Inr PNone else Inl JSONDecodeError),
      format_float = no_float_text,
      nominatim = unreachable,
      console = terminal\<rparr>"




definition greenwich_reply :: string where
  "greenwich_reply = ''{\"location\":\"Greenwich\",\"latitude\":51.48,\"longitude\":0}''"

definition greenwich_request :: pyval where
  "greenwich_request =
     PDict [(''location'', PStr ''Greenwich''), (''latitude'', PFloat (decimal 5148 2)),
            (''longitude'', PInt 0)]"

definition greenwich_world :: world where
  "greenwich_world =
     \<lparr>generate_response = (\<lambda>message. PStr greenwich_reply),
      json_loads = (\<lambda>s. if s = greenwich_reply then Inr greenwich_request else Inl JSONDecodeError),
      format_float = no_float_text,
      nominatim = unreachable,
      console = terminal\<rparr>"

text \<open>
  A reply of a thousand opening brackets, on which \<open>json.loads\<close> raises \<open>RecursionError\<close>,
  and a world in which the service sends \<open>null\<close> as the content of the reply.
\<close>

definition deep_reply :: string where
  "deep_reply = replicate 1000 CHR ''[''"

definition deep_world :: world where
  "deep_world =
     \<lparr>generate_response = (\<lambda>message. PStr deep_reply),
      json_loads = (\<lambda>s. if s = deep_reply then Inl RecursionError else Inl JSONDecodeError),
      format_float = no_float_text,
      nominatim = unreachable,
      console = terminal\<rparr>"

definition null_world :: world where
  "null_world =
     \<lparr>generate_response = (\<lambda>message. PNone),
      json_loads = (\<lambda>s. if s = ''null'' then Inr PNone else Inl JSONDecodeError),
      format_float = no_float_text,
      nominatim = unreachable,
      console = terminal\<rparr>"

subsection \<open>Fences, candidates and braces\<close>

text \<open>
  \<open>first_split sub s pre post\<close>: \<open>pre\<close> is the text before the first occurrence of \<open>sub\<close>
  in \<open>s\<close>, and \<open>post\<close> the text after it.
\<close>

definition first_split :: "string \<Rightarrow> string \<Rightarrow> string \<Rightarrow> string \<Rightarrow> bool" where
  "first_split sub s pre post \<longleftrightarrow>
     s = pre @ sub @ post \<and> (\<forall>pre' post'. s = pre' @ sub @ post' \<longrightarrow> length pre \<le> length pre')"

text \<open>
  The candidate of a stripped reply \<open>c\<close>: the text inside the marked fence, else the text
  inside the first fence, else \<open>c\<close>; a fence has an opener and a closing marker.
\<close>

definition candidate :: "string \<Rightarrow> string \<Rightarrow> bool" where
  "candidate c cand \<longleftrightarrow>
     (\<exists>pre rest mid post.
        first_split ''```json'' c pre rest \<and> first_split ''```'' rest mid post \<and> cand = strip mid) \<or>
     (\<not> sublist ''```json'' c \<and>
      (\<exists>pre rest mid post.
         first_split ''```'' c pre rest \<and> first_split ''```'' rest mid post \<and> cand = strip mid)) \<or>
     (\<not> sublist ''```'' c \<and> cand = c)"

text \<open>
  \<open>brace_slice_of cand out\<close>: \<open>out\<close> is \<open>cand\<close> from its first \<open>{\<close> to its last \<open>}\<close>, both
  included. \<open>has_braces cand\<close>: \<open>cand\<close> has a \<open>{\<close> and, somewhere after it, a \<open>}\<close>.
\<close>

definition brace_slice_of :: "string \<Rightarrow> string \<Rightarrow> bool" where
  "brace_slice_of cand out \<longleftrightarrow>
     (\<exists>a m z. cand = a @ CHR ''{'' # m @ CHR ''}'' # z \<and> CHR ''{'' \<notin> set a \<and> CHR ''}'' \<notin> set z \<and>
        out = CHR ''{'' # m @ ''}'')"

definition has_braces :: "string \<Rightarrow> bool" where
  "has_braces cand \<longleftrightarrow> (\<exists>a m z. cand = a @ CHR ''{'' # m @ CHR ''}'' # z)"

text \<open>A text that is a JSON object and white space around it: it runs from \<open>{\<close> to \<open>}\<close>.\<close>

definition bare_object :: "string \<Rightarrow> bool" where
  "bare_object text \<longleftrightarrow> (\<exists>body. strip text = CHR ''{'' # body @ ''}'')"

text \<open>The replies of the examples.\<close>

definition paris_object :: string where
  "paris_object = ''{\"location\":\"Paris\",\"weather_type\":\"current\"}''"

definition fenced_reply :: string where
  "fenced_reply =
     ''Here you go:'' @ [CHR 0x0A] @ ''```json'' @ [CHR 0x0A] @ paris_object @ [CHR 0x0A] @ ''```'' @
     [CHR 0x0A] @ ''Enjoy!''"

definition padded_object :: string where
  "padded_object = CHR 0x20 # paris_object @ [CHR 0x0A]"

definition backtick_object :: string where
  "backtick_object = ''{\"a\":\"```\"}''"

definition nested_object :: string where
  "nested_object = ''{\"a\":{\"b\":1},\"c\":2}''"

text \<open>A reply made of the marked opener, a newline and an object, with nothing after it.\<close>

definition unclosed_reply :: "string \<Rightarrow> string" where
  "unclosed_reply object = ''```json'' @ CHR 0x0A # object"

section \<open>Properties of the float model\<close>

lemma pow2_powi: "pow2 e = 2 powi e"
  by (simp add: pow2_def power_int_def power_one_over inverse_eq_divide)

lemma pow2_pos: "0 < pow2 e"
  by (simp add: pow2_powi)

lemma pow2_mono: "i \<le> j \<Longrightarrow> pow2 i \<le> pow2 j"
  by (simp add: pow2_powi power_int_increasing)

lemma round_half_even_le: "x \<le> of_int k \<Longrightarrow> round_half_even x \<le> k"
proof -
  assume h: "x \<le> of_int k"
  then have f: "\<lfloor>x\<rfloor> \<le> k" by (simp add: floor_le_iff) 
  show ?thesis
  proof (cases "\<lfloor>x\<rfloor> = k")
    case True
    with h have "x - of_int \<lfloor>x\<rfloor> \<le> 0" by simp
    then have "x - of_int \<lfloor>x\<rfloor> < 1 / 2" by linarith
    then show ?thesis using True by (simp add: round_half_even_def Let_def)
  next
    case False
    with f have "\<lfloor>x\<rfloor> + 1 \<le> k" by simp
    then show ?thesis by (simp add: round_half_even_def Let_def)
  qed
qed

lemma round_half_even_nonneg: "0 \<le> x \<Longrightarrow> 0 \<le> round_half_even x"
  by (simp add: round_half_even_def Let_def)

lemma ilog2_le:
  assumes "0 < x"
  shows "pow2 (ilog2 x) \<le> x"
proof -
  obtain a b where q: "quotient_of x = (a, b)" by force
  have b: "0 < b" using quotient_of_denom_pos[OF q] .
  have x: "x = of_int a / of_int b" using quotient_of_div[OF q] .
  have a: "0 < a" using assms b x by (simp add: zero_less_divide_iff)
  let ?k = "bitlen a - bitlen b"
  show ?thesis
  proof (cases "pow2 ?k \<le> x")
    case True
    then show ?thesis by (simp add: ilog2_def q Let_def)
  next
    case False
    have la: "bitlen a - 1 \<ge> 0" using a bitlen_eq_zero_iff[of a] bitlen_nonneg[of a] by linarith
    have "(2::int) ^ nat (bitlen a - 1) \<le> a" using bitlen_bounds[OF a] by simp
    then have "(of_int ((2::int) ^ nat (bitlen a - 1)) :: rat) \<le> of_int a" by (simp only: of_int_le_iff)
    then have 1: "pow2 (bitlen a - 1) \<le> of_int a" using la by (simp add: pow2_def)
    have "b < 2 ^ nat (bitlen b)" using bitlen_bounds[OF b] by simp
    then have "(of_int b :: rat) < of_int (2 ^ nat (bitlen b))" by (simp only: of_int_less_iff)
    then have 2: "of_int b \<le> pow2 (bitlen b)" using bitlen_nonneg[of b] by (simp add: pow2_def)
    have "pow2 (?k - 1) = pow2 (bitlen a - 1) / pow2 (bitlen b)"
      by (simp add: pow2_powi power_int_diff)
    also have "\<dots> \<le> of_int a / of_int b"
      using 1 2 b pow2_pos[of "bitlen a - 1"] by (intro frac_le) simp_all
    finally have "pow2 (?k - 1) \<le> x" using x by simp
    moreover have "ilog2 x = ?k - 1" using False by (simp add: ilog2_def q Let_def)
    ultimately show ?thesis by simp
  qed
qed

lemma binary64_bound:
  assumes "\<bar>x\<bar> \<le> of_int B" and "B < 2 ^ 53"
  shows "\<exists>r. binary64 x = Finite r \<and> \<bar>r\<bar> \<le> of_int B"
proof (cases "x = 0")
  case True
  with assms show ?thesis by (simp add: binary64_def)
next
  case False
  define a where "a = \<bar>x\<bar>"
  define e where "e = ilog2 a"
  define p where "p = max (e - 52) (- 1074)"
  define m where "m = round_half_even (a / pow2 p)"
  define y where "y = of_int m * pow2 p"
  have a: "0 < a" using False by (simp add: a_def)
  have "pow2 e \<le> a" unfolding e_def by (rule ilog2_le[OF a])
  also have "a \<le> of_int B" using assms(1) by (simp add: a_def)
  also have "(of_int B :: rat) < of_int (2 ^ 53)" using assms(2) by (simp only: of_int_less_iff)
  also have "(of_int (2 ^ 53) :: rat) = pow2 53" by (simp add: pow2_def)
  finally have "pow2 e < pow2 53" .
  then have "e < 53" using pow2_mono[of 53 e] by (cases "e < 53") auto
  then have p: "p \<le> 0" by (simp add: p_def)
  define n where "n = nat (- p)"
  have pp: "pow2 p = 1 / 2 ^ n" using p by (cases "p = 0") (auto simp: pow2_def n_def)
  have "a / pow2 p = a * 2 ^ n" by (simp add: pp)
  also have "\<dots> \<le> of_int B * 2 ^ n" using \<open>a \<le> of_int B\<close> by simp
  also have "\<dots> = of_int (B * 2 ^ n)" by simp
  finally have "m \<le> B * 2 ^ n" unfolding m_def by (rule round_half_even_le)
  then have "(of_int m :: rat) \<le> of_int (B * 2 ^ n)" by (simp only: of_int_le_iff)
  then have yB: "y \<le> of_int B" by (simp add: y_def pp field_simps)
  have "0 \<le> a / pow2 p" using a pow2_pos[of p] by simp
  then have "0 \<le> m" unfolding m_def by (rule round_half_even_nonneg)
  then have y0: "0 \<le> y" using pow2_pos[of p] by (simp add: y_def)
  have "y < pow2 1024"
  proof -
    have "y \<le> of_int B" by (rule yB)
    also have "\<dots> < pow2 53" using \<open>(of_int B :: rat) < of_int (2 ^ 53)\<close> \<open>(of_int (2 ^ 53) :: rat) = pow2 53\<close> by simp
    also have "\<dots> \<le> pow2 1024" by (rule pow2_mono) simp
    finally show ?thesis .
  qed
  then have "binary64 x = Finite (sgn x * y)"
    using False by (simp add: binary64_def Let_def a_def[symmetric] e_def[symmetric] p_def[symmetric] m_def[symmetric] y_def[symmetric])
  moreover have "\<bar>sgn x * y\<bar> \<le> of_int B" using y0 yB False by (simp add: abs_mult abs_sgn_eq)
  ultimately show ?thesis by blast
qed

lemma decimal_in_range:
  assumes "\<bar>of_int m / 10 ^ k\<bar> \<le> (90::rat)" and "\<bar>of_int n / 10 ^ l\<bar> \<le> (180::rat)"
  shows "in_range (decimal m k) (decimal n l)"
proof -
  obtain r where r: "binary64 (of_int m / 10 ^ k) = Finite r" "\<bar>r\<bar> \<le> of_int 90"
    using binary64_bound[of "of_int m / 10 ^ k" 90] assms(1) by auto
  obtain q where q: "binary64 (of_int n / 10 ^ l) = Finite q" "\<bar>q\<bar> \<le> of_int 180"
    using binary64_bound[of "of_int n / 10 ^ l" 180] assms(2) by auto
  show ?thesis using r q by (simp add: in_range_def decimal_def abs_le_iff)
qed

section \<open>The coordinate pattern and the text it matches\<close>

lemma star_set: "(m, r) \<in> set (star p s) \<longleftrightarrow> s = m @ r \<and> list_all p m"
proof (induction s arbitrary: m)
  case Nil
  show ?case by auto
next
  case (Cons c cs)
  show ?case
  proof (cases "p c")
    case True
    show ?thesis
    proof (cases m)
      case Nil
      then show ?thesis using True by auto
    next
      case (Cons d ds)
      then show ?thesis using True Cons.IH[of ds] by auto
    qed
  next
    case False
    then show ?thesis by (cases m) auto
  qed
qed

lemma rep_Star_set: "(m, r) \<in> set (rep p Star s) \<longleftrightarrow> s = m @ r \<and> list_all p m"
  by (simp add: star_set)

lemma rep_Plus_set: "(m, r) \<in> set (rep p Plus s) \<longleftrightarrow> s = m @ r \<and> list_all p m \<and> m \<noteq> []"
  by (auto simp: star_set)

lemma rep_Opt_set:
  "(m, r) \<in> set (rep p Opt s) \<longleftrightarrow> s = m @ r \<and> (m = [] \<or> (\<exists>c. m = [c] \<and> p c))"
  by (cases s) auto

lemma seq_Cons_set:
  "(m, r) \<in> set (seq ((a, q) # items) s) \<longleftrightarrow>
     (\<exists>m1 r1 m2. (m1, r1) \<in> set (rep (accepts a) q s) \<and> (m2, r) \<in> set (seq items r1) \<and> m = m1 @ m2)"
  by (force simp: split_def image_iff)

lemma seq_Nil_set: "(m, r) \<in> set (seq [] s) \<longleftrightarrow> m = [] \<and> r = s"
  by auto

lemma accepts_Digit: "accepts (Single Digit) = is_digit"
  by (rule ext) simp

lemma seq_ConsE:
  assumes "(m, r) \<in> set (seq ((a, q) # items) s)"
  obtains m1 r1 m2 where "(m1, r1) \<in> set (rep (accepts a) q s)"
    and "(m2, r) \<in> set (seq items r1)" and "m = m1 @ m2"
  using assms seq_Cons_set[of m r a q items s] by blast

lemma number_group_set: "(m, r) \<in> set (seq number_group s) \<longleftrightarrow> s = m @ r \<and> number_text m"
proof
  assume "(m, r) \<in> set (seq number_group s)"
  then have "(m, r) \<in> set (seq [(Single (Lit CHR ''-''), Opt), (Single Digit, Plus),
      (Single (Lit CHR ''.''), Opt), (Single Digit, Star)] s)"
    by (simp only: number_group_def)
  then obtain m1 r1 t1 where a1: "(m1, r1) \<in> set (rep (accepts (Single (Lit CHR ''-''))) Opt s)"
    and b1: "(t1, r) \<in> set (seq [(Single Digit, Plus), (Single (Lit CHR ''.''), Opt), (Single Digit, Star)] r1)"
    and c1: "m = m1 @ t1"
    by (rule seq_ConsE)
  from b1 obtain m2 r2 t2 where a2: "(m2, r2) \<in> set (rep (accepts (Single Digit)) Plus r1)"
    and b2: "(t2, r) \<in> set (seq [(Single (Lit CHR ''.''), Opt), (Single Digit, Star)] r2)"
    and c2: "t1 = m2 @ t2"
    by (rule seq_ConsE)
  from b2 obtain m3 r3 t3 where a3: "(m3, r3) \<in> set (rep (accepts (Single (Lit CHR ''.''))) Opt r2)"
    and b3: "(t3, r) \<in> set (seq [(Single Digit, Star)] r3)"
    and c3: "t2 = m3 @ t3"
    by (rule seq_ConsE)
  from b3 obtain m4 r4 t4 where a4: "(m4, r4) \<in> set (rep (accepts (Single Digit)) Star r3)"
    and b4: "(t4, r) \<in> set (seq [] r4)"
    and c4: "t3 = m4 @ t4"
    by (rule seq_ConsE)
  from b4 have e4: "t4 = []" "r4 = r" by (simp_all only: seq_Nil_set)
  from a1 have 1: "s = m1 @ r1" "m1 = [] \<or> m1 = ''-''" by (auto simp only: rep_Opt_set accepts.simps cls_accepts.simps)
  from a2 have 2: "r1 = m2 @ r2" "list_all is_digit m2" "m2 \<noteq> []"
    by (simp_all add: rep_Plus_set accepts_Digit del: rep.simps)
  from a3 have 3: "r2 = m3 @ r3" "m3 = [] \<or> m3 = ''.''" by (auto simp only: rep_Opt_set accepts.simps cls_accepts.simps)
  from a4 have 4: "r3 = m4 @ r" "list_all is_digit m4"
    by (simp_all add: rep_Star_set accepts_Digit e4 del: rep.simps)
  have m: "m = m1 @ m2 @ m3 @ m4" using c1 c2 c3 c4 e4 by simp
  have "s = m @ r" using 1 2 3 4 m by simp
  moreover have "number_text m" unfolding number_text_def using 1 2 3 4 m by blast
  ultimately show "s = m @ r \<and> number_text m" ..
next
  assume "s = m @ r \<and> number_text m"
  then obtain sg ip dt fp where s: "s = m @ r" and m: "m = sg @ ip @ dt @ fp"
    and sg: "sg = [] \<or> sg = ''-''" and ip: "ip \<noteq> []" "list_all is_digit ip"
    and dt: "dt = [] \<or> dt = ''.''" and fp: "list_all is_digit fp"
    unfolding number_text_def by blast
  have a: "(sg, ip @ dt @ fp @ r) \<in> set (rep (accepts (Single (Lit CHR ''-''))) Opt s)"
    using sg s m by (auto simp: rep_Opt_set)
  have b: "(ip, dt @ fp @ r) \<in> set (rep (accepts (Single Digit)) Plus (ip @ dt @ fp @ r))"
    using ip by (simp add: rep_Plus_set accepts_Digit del: rep.simps)
  have c: "(dt, fp @ r) \<in> set (rep (accepts (Single (Lit CHR ''.''))) Opt (dt @ fp @ r))"
    using dt by (auto simp: rep_Opt_set simp del: rep.simps)
  have d: "(fp, r) \<in> set (rep (accepts (Single Digit)) Star (fp @ r))"
    using fp by (simp add: rep_Star_set accepts_Digit del: rep.simps)
  have "(fp @ [], r) \<in> set (seq [(Single Digit, Star)] (fp @ r))"
    unfolding seq_Cons_set seq_Nil_set using d by blast
  then have "(dt @ fp @ [], r) \<in> set (seq [(Single (Lit CHR ''.''), Opt), (Single Digit, Star)] (dt @ fp @ r))"
    unfolding seq_Cons_set[of _ _ "Single (Lit CHR ''.'')"] using c by blast
  then have "(ip @ dt @ fp @ [], r) \<in> set (seq [(Single Digit, Plus), (Single (Lit CHR ''.''), Opt), (Single Digit, Star)] (ip @ dt @ fp @ r))"
    unfolding seq_Cons_set[of _ _ "Single Digit" Plus] using b by blast
  then have "(sg @ ip @ dt @ fp @ [], r) \<in> set (seq number_group s)"
    unfolding number_group_def seq_Cons_set[of _ _ "Single (Lit CHR ''-'')"] using a by blast
  then show "(m, r) \<in> set (seq number_group s)" using m by simp
qed

lemma accepts_sep: "accepts (Set [Lit CHR '','', Space]) = sep_char"
  by (rule ext) (simp add: sep_char_def)

lemma nodes_Group_set:
  "gs' \<in> set (nodes (Group items # ns) st gs s) \<longleftrightarrow>
     (\<exists>m r. (m, r) \<in> set (seq items s) \<and> gs' \<in> set (nodes ns (st \<and> m = []) (gs @ [m]) r))"
  by (force simp: split_def image_iff)

lemma nodes_Rep_set:
  "gs' \<in> set (nodes (Rep a q # ns) st gs s) \<longleftrightarrow>
     (\<exists>m r. (m, r) \<in> set (rep (accepts a) q s) \<and> gs' \<in> set (nodes ns (st \<and> m = []) gs r))"
  by (force simp: split_def image_iff)

lemma nodes_Eol_set:
  "gs' \<in> set (nodes [Eol] st gs s) \<longleftrightarrow> gs' = gs \<and> (s = [] \<or> s = [CHR 0x0A])"
  by auto

lemma coord_pattern_set:
  "gs \<in> set (nodes coord_pattern True [] s) \<longleftrightarrow>
     (\<exists>a sep b t. gs = [a, b] \<and> s = a @ sep @ b @ t \<and> number_text a \<and> separator sep \<and> number_text b \<and>
        (t = [] \<or> t = [CHR 0x0A]))"
proof -
  have "gs \<in> set (nodes coord_pattern True [] s) \<longleftrightarrow>
      gs \<in> set (nodes [Group number_group, Rep (Set [Lit CHR '','', Space]) Plus, Group number_group, Eol] True [] s)"
    by (simp add: coord_pattern_def del: nodes.simps(4,5))
  also have "\<dots> \<longleftrightarrow> (\<exists>a r1. (s = a @ r1 \<and> number_text a) \<and>
      (\<exists>sep r2. (r1 = sep @ r2 \<and> list_all sep_char sep \<and> sep \<noteq> []) \<and>
        (\<exists>b t. (r2 = b @ t \<and> number_text b) \<and> gs = [a, b] \<and> (t = [] \<or> t = [CHR 0x0A]))))"
    by (simp only: nodes_Group_set nodes_Rep_set nodes_Eol_set number_group_set rep_Plus_set
          accepts_sep append_Nil append_Cons)
  also have "\<dots> \<longleftrightarrow> (\<exists>a sep b t. gs = [a, b] \<and> s = a @ sep @ b @ t \<and> number_text a \<and> separator sep \<and> number_text b \<and>
        (t = [] \<or> t = [CHR 0x0A]))"
    unfolding separator_def by blast
  finally show ?thesis .
qed

lemma digit_not_sep: "is_digit c \<Longrightarrow> \<not> sep_char c"
  by (auto simp: is_digit_def sep_char_def is_space_def)

lemma number_text_chars: "number_text a \<Longrightarrow> c \<in> set a \<Longrightarrow> c = CHR ''-'' \<or> c = CHR ''.'' \<or> is_digit c"
  unfolding number_text_def by (auto simp: list_all_iff)

lemma minus_dot_not_sep: "\<not> sep_char CHR ''-''" "\<not> sep_char CHR ''.''"
  by (simp_all add: sep_char_def is_space_def)

lemma number_text_no_sep: "number_text a \<Longrightarrow> c \<in> set a \<Longrightarrow> \<not> sep_char c"
  using number_text_chars[of a c] digit_not_sep[of c] minus_dot_not_sep by blast

lemma number_text_not_Nil: "number_text a \<Longrightarrow> a \<noteq> []"
  unfolding number_text_def by auto

lemma split_first:
  assumes "number_text a" "separator sep"
  shows "takeWhile (\<lambda>c. \<not> sep_char c) (a @ sep @ r) = a"
    and "dropWhile (\<lambda>c. \<not> sep_char c) (a @ sep @ r) = sep @ r"
proof -
  obtain c cs where sep: "sep = c # cs" "sep_char c"
    using assms(2) by (cases sep) (auto simp: separator_def)
  have a: "\<And>x. x \<in> set a \<Longrightarrow> \<not> sep_char x" using number_text_no_sep[OF assms(1)] .
  show "takeWhile (\<lambda>c. \<not> sep_char c) (a @ sep @ r) = a"
    using a sep by (simp add: takeWhile_append2)
  show "dropWhile (\<lambda>c. \<not> sep_char c) (a @ sep @ r) = sep @ r"
    using a sep by (simp add: dropWhile_append2)
qed

lemma split_second:
  assumes "separator sep" "number_text b"
  shows "dropWhile sep_char (sep @ b @ t) = b @ t"
proof -
  obtain c cs where b: "b = c # cs" "\<not> sep_char c"
    using assms(2) number_text_not_Nil[OF assms(2)] number_text_no_sep[OF assms(2), of "hd b"]
    by (cases b) auto
  have "\<And>x. x \<in> set sep \<Longrightarrow> sep_char x" using assms(1) by (simp add: separator_def list_all_iff)
  then show ?thesis using b by (simp add: dropWhile_append2)
qed

lemma newline_not_digit: "\<not> is_digit CHR 0x0A"
  by (simp add: is_digit_def)

lemma number_text_no_newline: "number_text x \<Longrightarrow> c \<in> set x \<Longrightarrow> c \<noteq> CHR 0x0A"
  using number_text_chars[of x c] newline_not_digit by auto

lemma takeWhile_line:
  assumes "\<And>c. c \<in> set b \<Longrightarrow> c \<noteq> CHR 0x0A" "t = [] \<or> t = [CHR 0x0A]"
  shows "takeWhile (\<lambda>c. c \<noteq> CHR 0x0A) (b @ t) = b"
  using assms by (auto simp: takeWhile_append2)

lemma number_text_end:
  assumes "number_text b" "number_text b'" "b @ t = b' @ t'"
    and "t = [] \<or> t = [CHR 0x0A]" and "t' = [] \<or> t' = [CHR 0x0A]"
  shows "b = b'"
proof -
  have "takeWhile (\<lambda>c. c \<noteq> CHR 0x0A) (b @ t) = b"
    using number_text_no_newline[OF assms(1)] assms(4) by (rule takeWhile_line)
  moreover have "takeWhile (\<lambda>c. c \<noteq> CHR 0x0A) (b' @ t') = b'"
    using number_text_no_newline[OF assms(2)] assms(5) by (rule takeWhile_line)
  ultimately show ?thesis using assms(3) by simp
qed

lemma coordinate_split_unique:
  assumes "s = a @ sep @ b @ t" "number_text a" "separator sep" "number_text b" "t = [] \<or> t = [CHR 0x0A]"
    and "s = a' @ sep' @ b' @ t'" "number_text a'" "separator sep'" "number_text b'" "t' = [] \<or> t' = [CHR 0x0A]"
  shows "a = a' \<and> b = b'"
proof -
  have a: "a = a'"
    using split_first(1)[OF assms(2,3), of "b @ t"] split_first(1)[OF assms(7,8), of "b' @ t'"] assms(1,6)
    by simp
  have "sep @ b @ t = sep' @ b' @ t'"
    using split_first(2)[OF assms(2,3), of "b @ t"] split_first(2)[OF assms(7,8), of "b' @ t'"] assms(1,6)
    by simp
  then have "b @ t = b' @ t'"
    using split_second[OF assms(3,4), of t] split_second[OF assms(8,9), of t'] by simp
  then have "b = b'" using number_text_end[OF assms(4,9) _ assms(5,10)] by simp
  with a show ?thesis ..
qed

lemma first_of_constant:
  assumes "xs \<noteq> []" "\<And>x. x \<in> set xs \<Longrightarrow> x = v"
  shows "(case xs of [] \<Rightarrow> None | x # _ \<Rightarrow> Some x) = Some v"
  using assms by (cases xs) auto

lemma re_match_coord_Some:
  assumes "s = a @ sep @ b @ t" "number_text a" "separator sep" "number_text b" "t = [] \<or> t = [CHR 0x0A]"
  shows "re_match coord_pattern s = Some [a, b]"
proof -
  have "\<exists>a' sep' b' t'. [a, b] = [a', b'] \<and> s = a' @ sep' @ b' @ t' \<and> number_text a' \<and> separator sep' \<and>
      number_text b' \<and> (t' = [] \<or> t' = [CHR 0x0A])"
    using assms by blast
  then have in_set: "[a, b] \<in> set (nodes coord_pattern True [] s)"
    by (simp only: coord_pattern_set)
  have same: "gs = [a, b]" if "gs \<in> set (nodes coord_pattern True [] s)" for gs
  proof -
    from that have "\<exists>a' sep' b' t'. gs = [a', b'] \<and> s = a' @ sep' @ b' @ t' \<and> number_text a' \<and>
        separator sep' \<and> number_text b' \<and> (t' = [] \<or> t' = [CHR 0x0A])"
      by (simp only: coord_pattern_set)
    then obtain a' sep' b' t' where g: "gs = [a', b']" "s = a' @ sep' @ b' @ t'" "number_text a'"
      "separator sep'" "number_text b'" "t' = [] \<or> t' = [CHR 0x0A]"
      by blast
    have "a = a' \<and> b = b'" using coordinate_split_unique[OF assms g(2-6)] .
    then show "gs = [a, b]" using g(1) by simp
  qed
  have ne: "nodes coord_pattern True [] s \<noteq> []"
  proof
    assume "nodes coord_pattern True [] s = []"
    with in_set show False by simp
  qed
  show ?thesis unfolding re_match_def using ne same by (rule first_of_constant)
qed

lemma re_match_coord_None:
  assumes "\<not> (\<exists>a sep b t. s = a @ sep @ b @ t \<and> number_text a \<and> separator sep \<and> number_text b \<and>
        (t = [] \<or> t = [CHR 0x0A]))"
  shows "re_match coord_pattern s = None"
proof (cases "nodes coord_pattern True [] s")
  case Nil
  then show ?thesis by (simp add: re_match_def)
next
  case (Cons gs rest)
  then have "gs \<in> set (nodes coord_pattern True [] s)" by simp
  then have "\<exists>a sep b t. gs = [a, b] \<and> s = a @ sep @ b @ t \<and> number_text a \<and> separator sep \<and>
      number_text b \<and> (t = [] \<or> t = [CHR 0x0A])"
    by (simp only: coord_pattern_set)
  with assms show ?thesis by blast
qed

lemma strip_last: "strip s = x @ [c] \<Longrightarrow> \<not> is_space c"
proof -
  assume h: "strip s = x @ [c]"
  define u where "u = dropWhile is_space (rev (dropWhile is_space s))"
  have "rev u = x @ [c]" using h by (simp add: strip_def u_def)
  then have "u = c # rev x" by (metis rev_rev_ident rev.simps(2) rev_append rev_singleton_conv append_Nil)
  then have "hd u = c" "u \<noteq> []" by simp_all
  then show ?thesis unfolding u_def using hd_dropWhile[of is_space] by metis
qed

lemma clean_last: "clean l = x @ [c] \<Longrightarrow> \<not> is_space c"
  unfolding clean_def by (rule strip_last)

lemma newline_space: "is_space (CHR 0x0A)"
  by (simp add: is_space_def)

lemma minus_not_digit: "\<not> is_digit CHR ''-''" "\<not> is_digit CHR ''.''"
  by (simp_all add: is_digit_def)

lemma py_float_number_text:
  assumes "number_text a"
  shows "\<exists>f. py_float a = Inr f"
proof -
  obtain sg ip dt fp where a: "a = sg @ ip @ dt @ fp"
    and sg: "sg = [] \<or> sg = ''-''" and ip: "ip \<noteq> []" "list_all is_digit ip"
    and dt: "dt = [] \<or> dt = ''.''" and fp: "list_all is_digit fp"
    using assms unfolding number_text_def by blast
  obtain d ds where ipc: "ip = d # ds" "is_digit d" using ip by (cases ip) auto
  have dne: "d \<noteq> CHR ''-''" using ipc(2) minus_not_digit(1) by auto
  define neg where "neg = (a \<noteq> [] \<and> hd a = CHR ''-'')"
  define body where "body = (if neg then tl a else a)"
  have body: "body = ip @ dt @ fp"
    using sg a ipc dne by (auto simp: body_def neg_def)
  have ipd: "\<And>x. x \<in> set ip \<Longrightarrow> is_digit x" using ip(2) by (simp add: list_all_iff)
  have fpd: "\<And>x. x \<in> set fp \<Longrightarrow> is_digit x" using fp by (simp add: list_all_iff)
  have ok: "takeWhile is_digit body \<noteq> [] \<and>
      (dropWhile is_digit body = [] \<or> hd (dropWhile is_digit body) = CHR ''.'') \<and>
      list_all is_digit (if dropWhile is_digit body = [] then [] else tl (dropWhile is_digit body))"
  proof (cases "dt = []")
    case True
    then have "body = ip @ fp" using body by simp
    moreover have "\<And>x. x \<in> set (ip @ fp) \<Longrightarrow> is_digit x" using ipd fpd by auto
    ultimately have "takeWhile is_digit body = ip @ fp" "dropWhile is_digit body = []"
      by simp_all
    then show ?thesis using ip by simp
  next
    case False
    then have b: "body = ip @ CHR ''.'' # fp" using body dt by simp
    have "takeWhile is_digit body = ip" "dropWhile is_digit body = CHR ''.'' # fp"
      unfolding b using ipd minus_not_digit(2) by (simp_all add: takeWhile_append2 dropWhile_append2)
    then show ?thesis using ip fp by simp
  qed
  show ?thesis
    unfolding py_float_def Let_def neg_def[symmetric] body_def[symmetric] using ok by simp
qed

lemma group_pair: "group [a, b] 1 = Inr a" "group [a, b] 2 = Inr b"
  by (simp_all add: group_def)

lemma is_coordinate_pair_match:
  assumes "coordinate_text (clean location) a b" "py_float a = Inr lat" "py_float b = Inr lon"
  shows "is_coordinate_pair location = Inr (if in_range lat lon then Some (lat, lon) else None)"
proof -
  obtain sep where "clean location = a @ sep @ b @ []" "number_text a" "separator sep" "number_text b"
    using assms(1) unfolding coordinate_text_def by auto
  then have "re_match coord_pattern (clean location) = Some [a, b]"
    by (rule re_match_coord_Some) simp
  then show ?thesis
    by (simp add: is_coordinate_pair_def Let_def group_def assms(2,3) andthen_def except_def)
qed

lemma is_coordinate_pair_no_match:
  assumes "\<not> (\<exists>a b. coordinate_text (clean location) a b)"
  shows "is_coordinate_pair location = Inr None"
proof -
  have "\<not> (\<exists>a sep b t. clean location = a @ sep @ b @ t \<and> number_text a \<and> separator sep \<and> number_text b \<and>
        (t = [] \<or> t = [CHR 0x0A]))"
  proof
    assume "\<exists>a sep b t. clean location = a @ sep @ b @ t \<and> number_text a \<and> separator sep \<and> number_text b \<and>
        (t = [] \<or> t = [CHR 0x0A])"
    then obtain a sep b t where h: "clean location = a @ sep @ b @ t" "number_text a" "separator sep"
      "number_text b" "t = [] \<or> t = [CHR 0x0A]" by blast
    show False
    proof (cases "t = []")
      case True
      then have "coordinate_text (clean location) a b" using h by (auto simp: coordinate_text_def)
      with assms show False by blast
    next
      case False
      then have "clean location = (a @ sep @ b) @ [CHR 0x0A]" using h by auto
      then show False using clean_last newline_space by blast
    qed
  qed
  then have "re_match coord_pattern (clean location) = None" by (rule re_match_coord_None)
  then show ?thesis by (simp add: is_coordinate_pair_def)
qed

lemma is_coordinate_pair_total: "\<exists>r. is_coordinate_pair location = Inr r"
proof (cases "\<exists>a b. coordinate_text (clean location) a b")
  case True
  then obtain a b where ab: "coordinate_text (clean location) a b" by blast
  then have "number_text a" "number_text b" by (auto simp: coordinate_text_def)
  then obtain lat lon where "py_float a = Inr lat" "py_float b = Inr lon"
    using py_float_number_text by blast
  with ab show ?thesis using is_coordinate_pair_match by blast
next
  case False
  then show ?thesis using is_coordinate_pair_no_match by blast
qed

lemma coordinate_text_chars:
  assumes "coordinate_text s a b" "c \<in> set s"
  shows "coordinate_char c"
proof -
  obtain sep where s: "s = a @ sep @ b" "number_text a" "separator sep" "number_text b"
    using assms(1) unfolding coordinate_text_def by blast
  from assms(2) s(1) consider "c \<in> set a" | "c \<in> set sep" | "c \<in> set b" by auto
  then show ?thesis
  proof cases
    case 1 then show ?thesis using number_text_chars[OF s(2)] by (auto simp: coordinate_char_def)
  next
    case 2 then show ?thesis using s(3) by (auto simp: coordinate_char_def separator_def list_all_iff)
  next
    case 3 then show ?thesis using number_text_chars[OF s(4)] by (auto simp: coordinate_char_def)
  qed
qed

lemma other_char_no_match:
  assumes "c \<in> set s" "\<not> coordinate_char c"
  shows "\<not> matches_coordinate_text s"
  using assms coordinate_text_chars unfolding matches_coordinate_text_def by blast

lemma is_coordinate_pair_other_char:
  assumes "c \<in> set (clean location)" "\<not> coordinate_char c"
  shows "is_coordinate_pair location = Inr None"
  using other_char_no_match[OF assms] is_coordinate_pair_no_match[of location]
  unfolding matches_coordinate_text_def by blast

lemma is_coordinate_pair_decimal:
  assumes "clean location = a @ sep @ b" "number_text a" "separator sep" "number_text b"
    and "py_float a = Inr (decimal m k)" "py_float b = Inr (decimal n j)"
    and "\<bar>of_int m / 10 ^ k\<bar> \<le> (90::rat)" "\<bar>of_int n / 10 ^ j\<bar> \<le> (180::rat)"
  shows "is_coordinate_pair location = Inr (Some (decimal m k, decimal n j))"
proof -
  have "coordinate_text (clean location) a b"
    using assms(1-4) unfolding coordinate_text_def by blast
  then show ?thesis
    using is_coordinate_pair_match[OF _ assms(5,6)] decimal_in_range[OF assms(7,8)] by simp
qed

lemma number_textI:
  assumes "x = sg @ ip @ dt @ fp" "sg = [] \<or> sg = ''-''" "ip \<noteq> []" "list_all is_digit ip"
    "dt = [] \<or> dt = ''.''" "list_all is_digit fp"
  shows "number_text x"
  unfolding number_text_def using assms by blast

lemma clean_example: "clean ''(12.5, -3)'' = ''12.5'' @ '', '' @ ''-3''"
  by (simp add: clean_def strip_def remove_char_def is_space_def)

lemma number_text_example: "number_text ''12.5''"
  by (rule number_textI[of _ "[]" "''12''" "''.''" "''5''"]) (simp_all add: is_digit_def)

lemma number_text_negative: "number_text ''-3''"
  by (rule number_textI[of _ "''-''" "''3''" "[]" "[]"]) (simp_all add: is_digit_def)

lemma separator_example: "separator '', ''"
  by (simp add: separator_def sep_char_def is_space_def)

lemma py_float_example: "py_float ''12.5'' = Inr (decimal 125 1)"
  by (simp add: py_float_def digits_value_def is_digit_def)

lemma py_float_negative: "py_float ''-3'' = Inr (decimal (- 3) 0)"
  by (simp add: py_float_def digits_value_def is_digit_def)

lemma strip_surrounding_example: "strip_surrounding ''4(0), 3'' = ''4(0), 3''"
  by (simp add: strip_surrounding_def paren_or_space_def is_space_def)

lemma no_match_inner_parentheses: "\<not> matches_coordinate_text ''4(0), 3''"
  by (rule other_char_no_match[of "CHR ''(''"]) (simp_all add: coordinate_char_def is_digit_def sep_char_def is_space_def)

section \<open>Location resolution\<close>

lemma py_in_sublist: "py_in sub s \<longleftrightarrow> sublist sub s"
  unfolding py_in_def by (induction s) (auto simp: sublist_Cons_right)

lemma py_print_written: "out text = None \<Longrightarrow> py_print out text = Inr ()"
  by (simp add: py_print_def)

lemma py_print_raises: "out text = Some e \<Longrightarrow> py_print out text = Inl e"
  by (simp add: py_print_def)

lemma geocode_nominatim_returns:
  "failure_notice_written net out location \<Longrightarrow> \<exists>r. geocode_nominatim net out location = Inr r"
  by (cases "net location")
     (simp_all add: geocode_nominatim_def failure_notice_written_def except_def is_Exception_def
        andthen_def py_print_def)

lemma geocode_nominatim_None:
  "(\<forall>lat lon. net location \<noteq> Coordinates lat lon) \<Longrightarrow> failure_notice_written net out location \<Longrightarrow>
   geocode_nominatim net out location = Inr None"
  by (cases "net location")
     (simp_all add: geocode_nominatim_def failure_notice_written_def except_def is_Exception_def
        andthen_def py_print_def)

lemma geocode_nominatim_raises:
  "net location = Raised e text \<Longrightarrow> out (geocoding_failed text) = Some e' \<Longrightarrow>
   geocode_nominatim net out location = Inl e'"
  by (simp add: geocode_nominatim_def except_def is_Exception_def andthen_def py_print_def)

lemma city_loop_find:
  "city_loop cities l = map_option snd (find (\<lambda>(city, coords). sublist city l) cities)"
  by (induction cities) (auto simp: py_in_sublist)

lemma get_coordinates_returns:
  assumes "failure_notice_written net out location" "default_notice_written out location"
  shows "\<exists>p. get_coordinates net out location = Inr p"
proof -
  obtain r where r: "is_coordinate_pair location = Inr r" using is_coordinate_pair_total by blast
  obtain g where g: "geocode_nominatim net out location = Inr g"
    using geocode_nominatim_returns[OF assms(1)] by blast
  have p: "py_print out (location_not_found location) = Inr ()"
    using assms(2) by (simp add: default_notice_written_def py_print_def)
  show ?thesis
    by (simp add: get_coordinates_def andthen_def r g p split: option.split)
qed

lemma terminal_notices:
  "failure_notice_written net terminal location" "default_notice_written terminal location"
  by (simp_all add: failure_notice_written_def default_notice_written_def terminal_def
      split: lookup.split)

lemma tokyo_not_coordinates: "is_coordinate_pair ''weather in Tokyo'' = Inr None"
proof (rule is_coordinate_pair_other_char[of "CHR ''w''"])
  show "CHR ''w'' \<in> set (clean ''weather in Tokyo'')"
    by (simp add: clean_def strip_def remove_char_def is_space_def)
  show "\<not> coordinate_char CHR ''w''"
    by (simp add: coordinate_char_def is_digit_def sep_char_def is_space_def)
qed

text \<open>
  Claim C1, as the code has it. Let \<open>clean location\<close> be the input without its surrounding
  white space, without any parenthesis, wherever it stands, and again without surrounding
  white space. If that text is a number, a separator and a number (a minus sign is the
  only sign, the separator is any non-empty run of commas and white space), then
  \<open>float\<close> reads both numbers and \<open>_is_coordinate_pair\<close> returns exactly the pair of these
  floats when they satisfy \<open>-90 \<le> lat \<le> 90\<close> and \<open>-180 \<le> lon \<le> 180\<close>, and \<open>None\<close> when
  they do not. If that text is anything else, \<open>_is_coordinate_pair\<close> returns \<open>None\<close>. It
  never raises.
\<close>

theorem is_coordinate_pair_characterisation:
  "(coordinate_text (clean location) a b \<longrightarrow>
      (\<exists>lat lon. py_float a = Inr lat \<and> py_float b = Inr lon \<and>
         is_coordinate_pair location = Inr (if in_range lat lon then Some (lat, lon) else None))) \<and>
   (\<not> matches_coordinate_text (clean location) \<longrightarrow> is_coordinate_pair location = Inr None)"
proof (intro conjI impI)
  assume h: "coordinate_text (clean location) a b"
  then have "number_text a" "number_text b" by (auto simp: coordinate_text_def)
  then obtain lat lon where f: "py_float a = Inr lat" "py_float b = Inr lon"
    using py_float_number_text by blast
  then show "\<exists>lat lon. py_float a = Inr lat \<and> py_float b = Inr lon \<and>
         is_coordinate_pair location = Inr (if in_range lat lon then Some (lat, lon) else None)"
    using is_coordinate_pair_match[OF h] by blast
next
  assume "\<not> matches_coordinate_text (clean location)"
  then show "is_coordinate_pair location = Inr None"
    unfolding matches_coordinate_text_def by (rule is_coordinate_pair_no_match)
qed

text \<open>
  Both cases occur: \<open>(12.5, -3)\<close> is read as the pair (12.5, -3.0), and \<open>12.5; -3\<close>, whose
  separator is malformed, gives \<open>None\<close>.
\<close>

theorem is_coordinate_pair_characterisation_witness:
  "coordinate_text (clean ''(12.5, -3)'') ''12.5'' ''-3'' \<and>
   is_coordinate_pair ''(12.5, -3)'' = Inr (Some (decimal 125 1, decimal (- 3) 0)) \<and>
   \<not> matches_coordinate_text (clean ''12.5; -3'') \<and> is_coordinate_pair ''12.5; -3'' = Inr None"
proof -
  have 1: "coordinate_text (clean ''(12.5, -3)'') ''12.5'' ''-3''"
    unfolding coordinate_text_def using clean_example number_text_example number_text_negative separator_example by blast
  have r: "in_range (decimal 125 1) (decimal (- 3) 0)" by (rule decimal_in_range) simp_all
  have 2: "is_coordinate_pair ''(12.5, -3)'' = Inr (Some (decimal 125 1, decimal (- 3) 0))"
    using is_coordinate_pair_characterisation[of "''(12.5, -3)''" "''12.5''" "''-3''"] 1 py_float_example py_float_negative r
    by auto
  have c: "clean ''12.5; -3'' = ''12.5; -3''"
    by (simp add: clean_def strip_def remove_char_def is_space_def)
  have 3: "\<not> matches_coordinate_text (clean ''12.5; -3'')"
    unfolding c
    by (rule other_char_no_match[of "CHR '';''"])
       (simp_all add: coordinate_char_def is_digit_def sep_char_def is_space_def)
  have 4: "is_coordinate_pair ''12.5; -3'' = Inr None"
    using is_coordinate_pair_characterisation[of "''12.5; -3''"] 3 by blast
  show ?thesis using 1 2 3 4 by blast
qed

text \<open>
  Claim C1 as it is worded speaks of stripping the surrounding white space and
  parentheses. The text \<open>4(0), 3\<close> has none around it and is not a number, a separator
  and a number, so it should give \<open>None\<close>; the code removes the inner parentheses too and
  returns (40.0, 3.0).
\<close>

theorem is_coordinate_pair_inner_parentheses:
  "\<not> matches_coordinate_text (strip_surrounding ''4(0), 3'') \<and>
   is_coordinate_pair ''4(0), 3'' = Inr (Some (decimal 40 0, decimal 3 0))"
proof -
  have c: "clean ''4(0), 3'' = ''40'' @ '', '' @ ''3''"
    by (simp add: clean_def strip_def remove_char_def is_space_def)
  have a: "number_text ''40''"
    by (rule number_textI[of _ "[]" "''40''" "[]" "[]"]) (simp_all add: is_digit_def)
  have b: "number_text ''3''"
    by (rule number_textI[of _ "[]" "''3''" "[]" "[]"]) (simp_all add: is_digit_def)
  have fa: "py_float ''40'' = Inr (decimal 40 0)"
    by (simp add: py_float_def digits_value_def is_digit_def)
  have fb: "py_float ''3'' = Inr (decimal 3 0)"
    by (simp add: py_float_def digits_value_def is_digit_def)
  have "is_coordinate_pair ''4(0), 3'' = Inr (Some (decimal 40 0, decimal 3 0))"
    by (rule is_coordinate_pair_decimal[OF c a separator_example b fa fb]) simp_all
  then show ?thesis using no_match_inner_parentheses by (simp add: strip_surrounding_example)
qed

text \<open>
  Claim C2, as the code has it. For every input string \<open>_is_coordinate_pair\<close> returns
  without raising. For every input string and every behaviour of the geocoding lookup (a
  result, no result, an exception of any kind raised by the request or by reading the
  payload), \<open>get_coordinates\<close> returns a pair of coordinates without raising, provided
  that \<open>print\<close> writes the two notices of the resolver: \<open>Geocoding failed: ...\<close> in the
  handler of the lookup, and \<open>Location '...' not found, defaulting to London\<close> before the
  default.
\<close>

theorem resolution_total:
  "(\<exists>r. is_coordinate_pair location = Inr r) \<and>
   (failure_notice_written net out location \<and> default_notice_written out location \<longrightarrow>
      (\<exists>p. get_coordinates net out location = Inr p))"
  using is_coordinate_pair_total get_coordinates_returns by blast

text \<open>An instance of the above, with a lookup that raises and a console that writes.\<close>

theorem resolution_total_witness:
  "(\<exists>r. is_coordinate_pair ''nowhere'' = Inr r) \<and>
   failure_notice_written unreachable terminal ''nowhere'' \<and>
   default_notice_written terminal ''nowhere'' \<and>
   (\<exists>p. get_coordinates unreachable terminal ''nowhere'' = Inr p)"
  using resolution_total[of "''nowhere''" unreachable terminal] terminal_notices by blast

text \<open>
  Claim C2 as it is worded says that \<open>get_coordinates\<close> never raises. When the service
  cannot be reached the handler prints its notice; on a standard output that is closed
  \<open>print\<close> raises \<open>ValueError\<close>, inside the handler, and \<open>get_coordinates\<close> raises it,
  for an input that the table of cities would have resolved.
\<close>

theorem resolution_raises_in_handler:
  "is_coordinate_pair ''weather in Tokyo'' = Inr None \<and>
   unreachable ''weather in Tokyo'' = Raised RequestException ''Connection refused'' \<and>
   closed_console (geocoding_failed ''Connection refused'') = Some ValueError \<and>
   get_coordinates unreachable closed_console ''weather in Tokyo'' = Inl ValueError"
proof -
  have "geocode_nominatim unreachable closed_console ''weather in Tokyo'' = Inl ValueError"
    by (rule geocode_nominatim_raises[of _ _ RequestException "''Connection refused''"])
       (simp_all add: unreachable_def closed_console_def)
  then show ?thesis
    by (simp add: get_coordinates_def andthen_def tokyo_not_coordinates unreachable_def
        closed_console_def)
qed

lemma tier1_example:
  "is_coordinate_pair ''40.7128, -74.0060'' = Inr (Some (decimal 407128 4, decimal (- 740060) 4))"
proof -
  have c: "clean ''40.7128, -74.0060'' = ''40.7128'' @ '', '' @ ''-74.0060''"
    by (simp add: clean_def strip_def remove_char_def is_space_def)
  have a: "number_text ''40.7128''"
    by (rule number_textI[of _ "[]" "''40''" "''.''" "''7128''"]) (simp_all add: is_digit_def)
  have b: "number_text ''-74.0060''"
    by (rule number_textI[of _ "''-''" "''74''" "''.''" "''0060''"]) (simp_all add: is_digit_def)
  have fa: "py_float ''40.7128'' = Inr (decimal 407128 4)"
    by (simp add: py_float_def digits_value_def is_digit_def eval_nat_numeral)
  have fb: "py_float ''-74.0060'' = Inr (decimal (- 740060) 4)"
    by (simp add: py_float_def digits_value_def is_digit_def eval_nat_numeral)
  show ?thesis
    by (rule is_coordinate_pair_decimal[OF c a separator_example b fa fb]) simp_all
qed

lemma get_coordinates_recognised:
  "is_coordinate_pair location = Inr (Some coords) \<Longrightarrow> get_coordinates net out location = Inr coords"
  by (simp add: get_coordinates_def andthen_def)

text \<open>
  Claim C3: when \<open>_is_coordinate_pair\<close> recognises the input, \<open>get_coordinates\<close> returns
  the recognised pair, and returns the same under any two behaviours \<open>net\<close> and \<open>net'\<close> of
  the geocoding lookup (and any two \<open>out\<close> and \<open>out'\<close> of the standard output, to which
  nothing is printed); for \<open>40.7128, -74.0060\<close> it returns (40.7128, -74.0060) whatever
  the lookup would do.
\<close>

theorem tier1_short_circuit:
  "(is_coordinate_pair location = Inr (Some coords) \<longrightarrow>
      get_coordinates net out location = Inr coords \<and>
      get_coordinates net' out' location = get_coordinates net out location) \<and>
   get_coordinates net out ''40.7128, -74.0060'' = Inr (decimal 407128 4, decimal (- 740060) 4)"
  using get_coordinates_recognised tier1_example by simp

text \<open>The instance, under a lookup that fails and one that answers with other coordinates.\<close>

theorem tier1_short_circuit_witness:
  "get_coordinates unreachable closed_console ''40.7128, -74.0060'' =
     Inr (decimal 407128 4, decimal (- 740060) 4) \<and>
   get_coordinates (\<lambda>_. Coordinates (decimal 0 0) (decimal 0 0)) terminal ''40.7128, -74.0060'' =
     Inr (decimal 407128 4, decimal (- 740060) 4)"
  using tier1_short_circuit[of "''40.7128, -74.0060''" "(decimal 407128 4, decimal (- 740060) 4)"
      unreachable closed_console "\<lambda>_. Coordinates (decimal 0 0) (decimal 0 0)" terminal]
    tier1_short_circuit[of "''40.7128, -74.0060''" "(decimal 407128 4, decimal (- 740060) 4)"
      "\<lambda>_. Coordinates (decimal 0 0) (decimal 0 0)" terminal unreachable closed_console]
  by simp

lemma get_coordinates_fallback:
  assumes "is_coordinate_pair location = Inr None" "geocode_nominatim net out location = Inr None"
  shows "get_coordinates net out location =
     (case city_loop major_cities (lower location) of
        Some c \<Rightarrow> Inr c
      | None \<Rightarrow>
          andthen (py_print out (location_not_found location)) (\<lambda>_.
            Inr (decimal 515074 4, decimal (- 1278) 4)))"
  by (simp add: get_coordinates_def andthen_def assms split: option.split)

lemma get_coordinates_city:
  assumes "is_coordinate_pair location = Inr None" "geocode_nominatim net out location = Inr None"
    and "city_loop major_cities (lower location) = Some c"
  shows "get_coordinates net out location = Inr c"
  by (simp add: get_coordinates_fallback[OF assms(1,2)] assms(3))

lemma get_coordinates_default:
  assumes "is_coordinate_pair location = Inr None" "geocode_nominatim net out location = Inr None"
    and "city_loop major_cities (lower location) = None" "default_notice_written out location"
  shows "get_coordinates net out location = Inr (decimal 515074 4, decimal (- 1278) 4)"
  using assms(4)
  by (simp add: get_coordinates_fallback[OF assms(1,2)] assms(3) default_notice_written_def
      py_print_def andthen_def)

lemma get_coordinates_default_raises:
  assumes "is_coordinate_pair location = Inr None" "geocode_nominatim net out location = Inr None"
    and "city_loop major_cities (lower location) = None" "out (location_not_found location) = Some e"
  shows "get_coordinates net out location = Inl e"
  using assms(4)
  by (simp add: get_coordinates_fallback[OF assms(1,2)] assms(3) py_print_def andthen_def)

lemma city_loop_tokyo: "city_loop major_cities ''weather in tokyo'' = Some (decimal 356762 4, decimal 1396503 4)"
  by (simp add: major_cities_def py_in_def)

lemma city_loop_nowhere: "city_loop major_cities ''nowhere'' = None"
  by (simp add: major_cities_def py_in_def)

lemma city_loop_order: "city_loop major_cities ''new york or london'' = Some (decimal 515074 4, decimal (- 1278) 4)"
  by (simp add: major_cities_def py_in_def)

lemma word_not_coordinates:
  assumes "c \<in> set (clean location)" "c \<in> set ''abcdefghijklmnopqrstuvwxyzABCDEFGHIJKLMNOPQRSTUVWXYZ''"
  shows "is_coordinate_pair location = Inr None"
proof (rule is_coordinate_pair_other_char[OF assms(1)])
  show "\<not> coordinate_char c"
    using assms(2) by (auto simp: coordinate_char_def is_digit_def sep_char_def is_space_def)
qed

lemma first_city_city_loop:
  "(case find (\<lambda>(city, coords). sublist city l) major_cities of
      Some (city, coords) \<Rightarrow> coords | None \<Rightarrow> d) =
   (case city_loop major_cities l of Some c \<Rightarrow> c | None \<Rightarrow> d)"
  by (simp add: city_loop_find split: option.split)

lemma no_city_city_loop:
  "find (\<lambda>(city, coords). sublist city l) major_cities = None \<longleftrightarrow> city_loop major_cities l = None"
  by (simp add: city_loop_find)

text \<open>
  Claim C4, as the code has it: when \<open>_is_coordinate_pair\<close> does not recognise the input
  and the lookup gives no coordinates, \<open>get_coordinates\<close> returns the coordinates of the
  first entry of the table, in its order London, New York, Paris, Tokyo, Sydney, Berlin,
  Madrid, Rome, Kyiv, Beijing, whose name occurs in the lower-cased input, and London's
  (51.5074, -0.1278) when none does, provided that \<open>print\<close> writes the notices on the
  way: the notice of the handler when the lookup raised, and the notice of the default
  when no name occurs. Tokyo's entry is (35.6762, 139.6503).
\<close>

theorem offline_fallback:
  "(is_coordinate_pair location = Inr None \<and> (\<forall>lat lon. net location \<noteq> Coordinates lat lon) \<and>
    failure_notice_written net out location \<and>
    (find (\<lambda>(city, coords). sublist city (lower location)) major_cities = None \<longrightarrow>
       default_notice_written out location) \<longrightarrow>
      get_coordinates net out location =
        Inr (case find (\<lambda>(city, coords). sublist city (lower location)) major_cities of
               Some (city, coords) \<Rightarrow> coords
             | None \<Rightarrow> (decimal 515074 4, decimal (- 1278) 4))) \<and>
   map fst major_cities =
     [''london'', ''new york'', ''paris'', ''tokyo'', ''sydney'', ''berlin'', ''madrid'', ''rome'',
      ''kyiv'', ''beijing''] \<and>
   map_of major_cities ''tokyo'' = Some (decimal 356762 4, decimal 1396503 4) \<and>
   map_of major_cities ''london'' = Some (decimal 515074 4, decimal (- 1278) 4)"
proof (intro conjI impI)
  assume h: "is_coordinate_pair location = Inr None \<and> (\<forall>lat lon. net location \<noteq> Coordinates lat lon) \<and>
    failure_notice_written net out location \<and>
    (find (\<lambda>(city, coords). sublist city (lower location)) major_cities = None \<longrightarrow>
       default_notice_written out location)"
  then have i: "is_coordinate_pair location = Inr None" by blast
  have g: "geocode_nominatim net out location = Inr None"
    using h by (simp add: geocode_nominatim_None)
  have "get_coordinates net out location =
     Inr (case city_loop major_cities (lower location) of Some c \<Rightarrow> c
          | None \<Rightarrow> (decimal 515074 4, decimal (- 1278) 4))"
  proof (cases "city_loop major_cities (lower location)")
    case None
    then have "default_notice_written out location" using h by (simp add: no_city_city_loop)
    then show ?thesis using get_coordinates_default[OF i g None] None by simp
  next
    case (Some c)
    then show ?thesis using get_coordinates_city[OF i g Some] by simp
  qed
  then show "get_coordinates net out location =
        Inr (case find (\<lambda>(city, coords). sublist city (lower location)) major_cities of
               Some (city, coords) \<Rightarrow> coords
             | None \<Rightarrow> (decimal 515074 4, decimal (- 1278) 4))"
    by (simp add: first_city_city_loop)
qed (simp_all add: major_cities_def)

text \<open>
  \<open>weather in Tokyo\<close> with an unreachable service resolves to Tokyo, \<open>nowhere\<close> to London
  (and not so when the notice of the handler cannot be printed), and \<open>New York or London\<close>
  to London, the earlier entry of the table, with no notice at all.
\<close>

theorem offline_fallback_witness:
  "is_coordinate_pair ''weather in Tokyo'' = Inr None \<and>
   get_coordinates unreachable terminal ''weather in Tokyo'' =
     Inr (decimal 356762 4, decimal 1396503 4) \<and>
   get_coordinates unreachable closed_console ''nowhere'' \<noteq>
     Inr (decimal 515074 4, decimal (- 1278) 4) \<and>
   get_coordinates no_results terminal ''nowhere'' = Inr (decimal 515074 4, decimal (- 1278) 4) \<and>
   get_coordinates no_results closed_console ''New York or London'' =
     Inr (decimal 515074 4, decimal (- 1278) 4)"
proof -
  have 1: "is_coordinate_pair ''weather in Tokyo'' = Inr None"
    by (rule word_not_coordinates[of "CHR ''w''"])
       (simp_all add: clean_def strip_def remove_char_def is_space_def)
  have 2: "is_coordinate_pair ''nowhere'' = Inr None"
    by (rule word_not_coordinates[of "CHR ''n''"])
       (simp_all add: clean_def strip_def remove_char_def is_space_def)
  have 3: "is_coordinate_pair ''New York or London'' = Inr None"
    by (rule word_not_coordinates[of "CHR ''N''"])
       (simp_all add: clean_def strip_def remove_char_def is_space_def)
  have l1: "lower ''weather in Tokyo'' = ''weather in tokyo''"
    by (simp add: lower_def lower_char_def char_of_def bit_0)
  have l2: "lower ''nowhere'' = ''nowhere''"
    by (simp add: lower_def lower_char_def char_of_def bit_0)
  have l3: "lower ''New York or London'' = ''new york or london''"
    by (simp add: lower_def lower_char_def char_of_def bit_0)
  have a: "get_coordinates unreachable terminal ''weather in Tokyo'' =
     Inr (decimal 356762 4, decimal 1396503 4)"
    using offline_fallback[of "''weather in Tokyo''" unreachable terminal] 1
    by (simp add: l1 first_city_city_loop no_city_city_loop city_loop_tokyo terminal_notices
        unreachable_def)
  have "geocode_nominatim unreachable closed_console ''nowhere'' = Inl ValueError"
    by (rule geocode_nominatim_raises[of _ _ RequestException "''Connection refused''"])
       (simp_all add: unreachable_def closed_console_def)
  then have n: "get_coordinates unreachable closed_console ''nowhere'' \<noteq>
     Inr (decimal 515074 4, decimal (- 1278) 4)"
    by (simp add: get_coordinates_def andthen_def 2)
  have b: "get_coordinates no_results terminal ''nowhere'' = Inr (decimal 515074 4, decimal (- 1278) 4)"
    using offline_fallback[of "''nowhere''" no_results terminal] 2
    by (simp add: l2 first_city_city_loop no_city_city_loop city_loop_nowhere terminal_notices
        no_results_def)
  have c: "get_coordinates no_results closed_console ''New York or London'' =
     Inr (decimal 515074 4, decimal (- 1278) 4)"
    using offline_fallback[of "''New York or London''" no_results closed_console] 3
    by (simp add: l3 first_city_city_loop no_city_city_loop city_loop_order no_results_def
        failure_notice_written_def)
  show ?thesis using 1 a n b c by blast
qed

lemma cafe_not_coordinates: "is_coordinate_pair cafe = Inr None"
  by (rule word_not_coordinates[of "CHR ''c''"])
     (simp_all add: cafe_def clean_def strip_def remove_char_def is_space_def)

lemma cafe_no_city: "city_loop major_cities (lower cafe) = None"
  by (simp add: cafe_def lower_def lower_char_def char_of_def bit_0 major_cities_def py_in_def)

text \<open>
  Claim C4 as it is worded gives London's coordinates for every unrecognised input that
  has no name of the table in it. For an input with a letter outside ASCII (\<open>caf\<close> and
  U+00E9), with a lookup without results and a standard output that encodes ASCII only,
  \<open>print\<close> raises \<open>UnicodeEncodeError\<close> at the notice of the default, and
  \<open>get_coordinates\<close> raises it.
\<close>

theorem default_notice_raises:
  "is_coordinate_pair cafe = Inr None \<and>
   no_results cafe = NoData \<and>
   find (\<lambda>(city, coords). sublist city (lower cafe)) major_cities = None \<and>
   ascii_console (location_not_found cafe) = Some UnicodeEncodeError \<and>
   get_coordinates no_results ascii_console cafe = Inl UnicodeEncodeError"
proof -
  have g: "geocode_nominatim no_results ascii_console cafe = Inr None"
    by (simp add: geocode_nominatim_def no_results_def)
  have p: "ascii_console (location_not_found cafe) = Some UnicodeEncodeError"
    by (simp add: ascii_console_def location_not_found_def cafe_def)
  have "get_coordinates no_results ascii_console cafe = Inl UnicodeEncodeError"
    by (rule get_coordinates_default_raises[OF cafe_not_coordinates g cafe_no_city p])
  then show ?thesis
    using cafe_not_coordinates p cafe_no_city by (simp add: no_city_city_loop no_results_def)
qed

section \<open>The response parser\<close>

lemma find_first_None: "find_first sub s = None \<longleftrightarrow> \<not> sublist sub s"
  by (induction s) (auto simp: sublist_Cons_right)

lemma find_first_Some:
  "find_first sub s = Some i \<longleftrightarrow>
     i \<le> length s \<and> prefix sub (drop i s) \<and> (\<forall>j<i. \<not> prefix sub (drop j s))"
proof (induction s arbitrary: i)
  case Nil
  show ?case by auto
next
  case (Cons c cs)
  show ?case
  proof (cases "prefix sub (c # cs)")
    case True
    then show ?thesis by (cases i) auto
  next
    case False
    show ?thesis
    proof (cases i)
      case 0
      then show ?thesis using False by simp
    next
      case (Suc k)
      have "(\<forall>j<Suc k. \<not> prefix sub (drop j (c # cs))) \<longleftrightarrow> (\<forall>j<k. \<not> prefix sub (drop j cs))"
      proof
        assume h: "\<forall>j<Suc k. \<not> prefix sub (drop j (c # cs))"
        show "\<forall>j<k. \<not> prefix sub (drop j cs)"
        proof (intro allI impI)
          fix j assume "j < k"
          then have "Suc j < Suc k" by simp
          with h have "\<not> prefix sub (drop (Suc j) (c # cs))" by blast
          then show "\<not> prefix sub (drop j cs)" by simp
        qed
      next
        assume h: "\<forall>j<k. \<not> prefix sub (drop j cs)"
        show "\<forall>j<Suc k. \<not> prefix sub (drop j (c # cs))"
        proof (intro allI impI)
          fix j assume j: "j < Suc k"
          show "\<not> prefix sub (drop j (c # cs))"
          proof (cases j)
            case 0 then show ?thesis using False by simp
          next
            case (Suc m)
            then have "m < k" using j by simp
            with h have "\<not> prefix sub (drop m cs)" by blast
            then show ?thesis using Suc by simp
          qed
        qed
      qed
      then show ?thesis using False Suc Cons.IH[of k] by auto
    qed
  qed
qed

lemma prefix_drop_split: "j \<le> length s \<Longrightarrow> prefix sub (drop j s) \<Longrightarrow> \<exists>post. s = take j s @ sub @ post"
  by (metis append_take_drop_id prefixE)

lemma first_split_find:
  assumes "first_split sub s pre post"
  shows "find_first sub s = Some (length pre)"
proof -
  have s: "s = pre @ sub @ post" and m: "\<And>pre' post'. s = pre' @ sub @ post' \<Longrightarrow> length pre \<le> length pre'"
    using assms unfolding first_split_def by blast+
  have "prefix sub (drop (length pre) s)" using s by simp
  moreover have "length pre \<le> length s" using s by simp
  moreover have "\<not> prefix sub (drop j s)" if "j < length pre" for j
  proof
    assume p: "prefix sub (drop j s)"
    have "j \<le> length s" using that s by simp
    then obtain post' where "s = take j s @ sub @ post'" using prefix_drop_split[OF _ p] by blast
    then have "length pre \<le> length (take j s)" by (rule m)
    then show False using that by simp
  qed
  ultimately show ?thesis unfolding find_first_Some by blast
qed

lemma find_first_split:
  assumes "find_first sub s = Some (length pre)" "s = pre @ sub @ post"
  shows "first_split sub s pre post"
  unfolding first_split_def
proof (intro conjI allI impI)
  show "s = pre @ sub @ post" by (rule assms(2))
next
  fix pre' post' assume h: "s = pre' @ sub @ post'"
  show "length pre \<le> length pre'"
  proof (rule ccontr)
    assume "\<not> length pre \<le> length pre'"
    then have "length pre' < length pre" by simp
    moreover have "prefix sub (drop (length pre') s)" using h by simp
    ultimately show False using assms(1) unfolding find_first_Some by blast
  qed
qed

lemma first_split_sublist: "first_split sub s pre post \<Longrightarrow> sublist sub s"
  unfolding first_split_def sublist_def by blast

lemma py_in_iff: "py_in sub s \<longleftrightarrow> sublist sub s"
  by (simp add: py_in_def find_first_None)

lemma py_find_0: "py_find s sub 0 = (case find_first sub s of None \<Rightarrow> - 1 | Some i \<Rightarrow> int i)"
  by (simp add: py_find_def split: option.split)

lemma py_find_from:
  assumes "s = pre @ rest" "start = int (length pre)"
  shows "py_find s sub start = (case find_first sub rest of None \<Rightarrow> - 1 | Some i \<Rightarrow> int (length pre + i))"
  using assms by (simp add: py_find_def)

lemma py_slice_middle:
  assumes "s = pre @ mid @ post" "i = int (length pre)" "j = int (length pre + length mid)"
  shows "py_slice s i j = mid"
  using assms by (simp add: py_slice_def slice_index_def)

lemma py_slice_to_last:
  assumes "s = pre @ rest" "i = int (length pre)"
  shows "py_slice s i (- 1) = butlast rest"
proof -
  have "slice_index (length s) (- 1) = length s - 1"
    by (simp add: slice_index_def nat_diff_distrib')
  moreover have "slice_index (length s) i = length pre" using assms by (simp add: slice_index_def)
  moreover have "length s - 1 - length pre = length rest - 1" using assms by simp
  ultimately show ?thesis using assms by (simp add: py_slice_def butlast_conv_take)
qed

lemma find_first_char:
  "c \<notin> set pre \<Longrightarrow> find_first [c] (pre @ c # post) = Some (length pre)"
  by (induction pre) auto

lemma find_first_char_None: "c \<notin> set s \<Longrightarrow> find_first [c] s = None"
  by (induction s) auto

lemma find_last_char_None: "c \<notin> set s \<Longrightarrow> find_last [c] s = None"
  by (induction s) auto

lemma find_last_char:
  "c \<notin> set post \<Longrightarrow> find_last [c] (pre @ c # post) = Some (length pre)"
  by (induction pre) (auto simp: find_last_char_None)

lemma find_last_char_Some: "find_last [c] s = Some i \<Longrightarrow> i < length s \<and> s ! i = c"
proof (induction s arbitrary: i)
  case Nil
  then show ?case by simp
next
  case (Cons d ds)
  then show ?case by (cases i) (auto split: option.splits if_splits)
qed

lemma find_first_char_Some: "find_first [c] s = Some i \<Longrightarrow> i < length s \<and> s ! i = c \<and> c \<notin> set (take i s)"
proof (induction s arbitrary: i)
  case Nil
  then show ?case by simp
next
  case (Cons d ds)
  then show ?case by (cases i) (auto split: if_splits)
qed

lemma json_object_slice:
  assumes "cand = a @ CHR ''{'' # m @ CHR ''}'' # z" "CHR ''{'' \<notin> set a" "CHR ''}'' \<notin> set z"
  shows "json_object cand = CHR ''{'' # m @ ''}''"
proof -
  have f: "find_first ''{'' cand = Some (length a)"
    unfolding assms(1) using assms(2) by (rule find_first_char)
  have "cand = (a @ CHR ''{'' # m) @ CHR ''}'' # z" using assms(1) by simp
  then have l: "find_last ''}'' cand = Some (length (a @ CHR ''{'' # m))"
    using find_last_char[OF assms(3)] by metis
  have s: "py_slice cand (int (length a)) (int (length a + length (CHR ''{'' # m @ ''}''))) = CHR ''{'' # m @ ''}''"
    by (rule py_slice_middle[where pre = a and post = z]) (simp_all add: assms(1))
  show ?thesis
    using s by (simp add: json_object_def py_find_0 py_rfind_def f l Let_def add.commute)
qed

lemma json_object_unchanged:
  assumes "\<not> has_braces cand"
  shows "json_object cand = cand"
proof (cases "find_first ''{'' cand")
  case None
  then show ?thesis by (simp add: json_object_def py_find_0)
next
  case (Some i)
  note i = find_first_char_Some[OF Some]
  show ?thesis
  proof (cases "find_last ''}'' cand")
    case None
    then show ?thesis by (simp add: json_object_def py_find_0 py_rfind_def Some)
  next
    case (Some j)
    note j = find_last_char_Some[OF Some]
    have "\<not> i < j"
    proof
      assume ij: "i < j"
      have 1: "cand = take i cand @ CHR ''{'' # drop (Suc i) cand"
        using i by (metis id_take_nth_drop)
      have jj: "j - Suc i < length (drop (Suc i) cand)" using ij j by (simp add: diff_less_mono)
      have "drop (Suc i) cand ! (j - Suc i) = CHR ''}''" using ij j by simp
      then have 2: "drop (Suc i) cand = take (j - Suc i) (drop (Suc i) cand) @ CHR ''}'' # drop (Suc (j - Suc i)) (drop (Suc i) cand)"
        using jj by (metis id_take_nth_drop)
      have "has_braces cand" unfolding has_braces_def using 1 2 by metis
      with assms show False by blast
    qed
    moreover have "i \<noteq> j" using i j by auto
    ultimately have "j < i" by simp
    then show ?thesis using \<open>find_first ''{'' cand = Some i\<close> Some
      by (simp add: json_object_def py_find_0 py_rfind_def)
  qed
qed

lemma nth_in_drop:
  assumes "k \<le> n" "n < length xs"
  shows "xs ! n \<in> set (drop k xs)"
proof -
  have "drop k xs ! (n - k) = xs ! n" using assms by simp
  moreover have "n - k < length (drop k xs)" using assms by (simp add: diff_less_mono)
  ultimately show ?thesis by (metis nth_mem)
qed

lemma has_braces_slice:
  assumes "has_braces cand"
  shows "\<exists>out. brace_slice_of cand out"
proof -
  obtain a m z where c: "cand = a @ CHR ''{'' # m @ CHR ''}'' # z"
    using assms unfolding has_braces_def by blast
  have "CHR ''{'' \<in> set cand" using c by simp
  then obtain a' y where 1: "cand = a' @ CHR ''{'' # y" "CHR ''{'' \<notin> set a'"
    by (meson split_list_first)
  have "CHR ''}'' \<in> set y"
  proof -
    have "length a' \<le> length a"
    proof (rule ccontr)
      assume "\<not> length a' \<le> length a"
      then have "length a < length a'" by simp
      then have "a' ! length a = cand ! length a" using 1(1) by (simp add: nth_append)
      also have "\<dots> = CHR ''{''" using c by simp
      finally have "CHR ''{'' \<in> set a'" using \<open>length a < length a'\<close> by (metis nth_mem)
      with 1(2) show False by blast
    qed
    have "drop (Suc (length a')) cand = y" using 1(1) by simp
    moreover have "CHR ''}'' \<in> set (drop (Suc (length a')) cand)"
    proof -
      have idx: "length a + Suc (length m) < length cand" using c by simp
      have "cand ! (length a + Suc (length m)) = CHR ''}''" using c by (simp add: nth_append)
      moreover have "Suc (length a') \<le> length a + Suc (length m)" using \<open>length a' \<le> length a\<close> by simp
      ultimately show ?thesis using idx nth_in_drop[of "Suc (length a')" "length a + Suc (length m)" cand]
        by simp
    qed
    ultimately show ?thesis by simp
  qed
  then obtain m' z' where 2: "y = m' @ CHR ''}'' # z'" "CHR ''}'' \<notin> set z'"
    by (meson split_list_last)
  have "brace_slice_of cand (CHR ''{'' # m' @ ''}'')"
    unfolding brace_slice_of_def using 1 2 by blast
  then show ?thesis ..
qed

lemma brace_slice_json_object: "brace_slice_of cand out \<Longrightarrow> json_object cand = out"
  unfolding brace_slice_of_def using json_object_slice by blast

lemma fence_in_json_fence: "sublist ''```'' ''```json''"
  unfolding sublist_def by (rule exI[of _ "[]"], rule exI[of _ "''json''"]) simp

lemma no_fence_no_json_fence: "\<not> sublist ''```'' c \<Longrightarrow> \<not> sublist ''```json'' c"
  using fence_in_json_fence sublist_order.order.trans by blast

lemma unfence_none: "\<not> sublist ''```'' c \<Longrightarrow> unfence c = c"
  using no_fence_no_json_fence[of c] by (simp add: unfence_def py_in_iff)

lemma fence_body:
  assumes "first_split opener c pre rest" "first_split ''```'' rest mid post"
  shows "py_slice c (py_find c opener 0 + int (length opener))
           (py_find c ''```'' (py_find c opener 0 + int (length opener))) = mid"
proof -
  have c: "c = pre @ opener @ rest" using assms(1) by (simp add: first_split_def)
  have r: "rest = mid @ ''```'' @ post" using assms(2) by (simp add: first_split_def)
  have s: "py_find c opener 0 + int (length opener) = int (length (pre @ opener))"
    by (simp add: py_find_0 first_split_find[OF assms(1)])
  have c2: "c = (pre @ opener) @ rest" using c by simp
  have e: "py_find c ''```'' (int (length (pre @ opener))) = int (length (pre @ opener) + length mid)"
    using py_find_from[OF c2 refl, of "''```''"] first_split_find[OF assms(2)] by simp
  have h: "py_slice c (int (length (pre @ opener))) (int (length (pre @ opener) + length mid)) = mid"
    by (rule py_slice_middle[where pre = "pre @ opener" and post = "''```'' @ post"])
       (simp_all add: c r)
  show ?thesis unfolding s e by (rule h)
qed

lemma fence_unclosed:
  assumes "first_split opener c pre rest" "\<not> sublist ''```'' rest"
  shows "py_find c ''```'' (py_find c opener 0 + int (length opener)) = - 1"
    and "py_slice c (py_find c opener 0 + int (length opener))
           (py_find c ''```'' (py_find c opener 0 + int (length opener))) = butlast rest"
proof -
  have c: "c = pre @ opener @ rest" using assms(1) by (simp add: first_split_def)
  have s: "py_find c opener 0 + int (length opener) = int (length (pre @ opener))"
    by (simp add: py_find_0 first_split_find[OF assms(1)])
  have c2: "c = (pre @ opener) @ rest" using c by simp
  have n: "find_first ''```'' rest = None" using assms(2) by (simp add: find_first_None)
  show e: "py_find c ''```'' (py_find c opener 0 + int (length opener)) = - 1"
    using py_find_from[OF c2 refl, of "''```''"] n by (simp add: s)
  have h: "py_slice c (int (length (pre @ opener))) (- 1) = butlast rest"
    by (rule py_slice_to_last[OF c2 refl])
  show "py_slice c (py_find c opener 0 + int (length opener))
           (py_find c ''```'' (py_find c opener 0 + int (length opener))) = butlast rest"
    unfolding e unfolding s by (rule h)
qed

lemma unfence_marked:
  assumes "first_split ''```json'' c pre rest" "first_split ''```'' rest mid post"
  shows "unfence c = strip mid"
  using fence_body[OF assms] first_split_sublist[OF assms(1)]
  by (simp add: unfence_def py_in_iff Let_def)

lemma unfence_plain:
  assumes "\<not> sublist ''```json'' c" "first_split ''```'' c pre rest" "first_split ''```'' rest mid post"
  shows "unfence c = strip mid"
  using fence_body[OF assms(2,3)] first_split_sublist[OF assms(2)] assms(1)
  by (simp add: unfence_def py_in_iff Let_def)

lemma unfence_marked_unclosed:
  assumes "first_split ''```json'' c pre rest" "\<not> sublist ''```'' rest"
  shows "unfence c = strip (butlast rest)"
  using fence_unclosed(2)[OF assms] first_split_sublist[OF assms(1)]
  by (simp add: unfence_def py_in_iff Let_def)

lemma unfence_candidate: "candidate c cand \<Longrightarrow> unfence c = cand"
  unfolding candidate_def using unfence_marked unfence_plain unfence_none by blast

lemma dropWhile_append_keep: "\<not> P y \<Longrightarrow> dropWhile P (xs @ y # ys) = dropWhile P xs @ y # ys"
  by (induction xs) auto

lemma strip_keep:
  assumes "\<not> is_space x" "\<not> is_space y"
  shows "strip (x # m @ y # z) = x # m @ y # rev (dropWhile is_space (rev z))"
  using assms by (simp add: strip_def dropWhile_append_keep)

lemma strip_braces: "strip (CHR ''{'' # body @ ''}'') = CHR ''{'' # body @ ''}''"
  using strip_keep[of "CHR ''{''" "CHR ''}''" body "[]"] by (simp add: is_space_def)

lemma set_strip: "set (strip s) \<subseteq> set s"
proof -
  have "set (dropWhile is_space (rev (dropWhile is_space s))) \<subseteq> set (rev (dropWhile is_space s))"
    by (rule set_dropWhileD[THEN subsetI])
  also have "\<dots> \<subseteq> set s" using set_dropWhileD[of _ is_space s] by auto
  finally show ?thesis by (simp add: strip_def)
qed

lemma no_closing_no_braces: "CHR ''}'' \<notin> set cand \<Longrightarrow> \<not> has_braces cand"
  unfolding has_braces_def by auto

lemma extract_json_bare_object:
  assumes "strip text = CHR ''{'' # body @ ''}''" "\<not> sublist ''```'' (strip text)"
  shows "extract_json text = strip text"
proof -
  have "json_object (strip text) = CHR ''{'' # body @ ''}''"
    by (rule json_object_slice[of _ "[]" _ "[]"]) (simp_all add: assms(1))
  then show ?thesis using assms by (simp add: extract_json_def unfence_none)
qed

lemmas eval_extract = extract_json_def unfence_def json_object_def strip_def is_space_def
  py_in_def py_find_def py_rfind_def py_slice_def slice_index_def

lemma no_occurrence: "find_first sub s = None \<Longrightarrow> \<not> sublist sub s"
  by (simp add: find_first_None)

lemma brace_slice_has_opening: "brace_slice_of cand out \<Longrightarrow> CHR ''{'' \<in> set cand"
  unfolding brace_slice_of_def by auto

lemma extract_json_fenced: "extract_json fenced_reply = paris_object"
  by (simp add: fenced_reply_def paris_object_def eval_extract)

lemma extract_json_hello: "extract_json ''hello'' = ''hello''"
  by (simp add: eval_extract)

lemma candidate_hello: "candidate (strip ''hello'') ''hello''"
proof -
  have s: "strip ''hello'' = ''hello''" by (simp add: strip_def is_space_def)
  have "\<not> sublist ''```'' ''hello''" by (rule no_occurrence) simp
  then show ?thesis by (simp add: candidate_def s)
qed

lemma candidate_fenced: "candidate (strip fenced_reply) paris_object"
proof -
  define pre where "pre = ''Here you go:'' @ [CHR 0x0A]"
  define mid where "mid = [CHR 0x0A] @ paris_object @ [CHR 0x0A]"
  define post where "post = [CHR 0x0A] @ ''Enjoy!''"
  define rest where "rest = mid @ ''```'' @ post"
  have s: "strip fenced_reply = pre @ ''```json'' @ rest"
    by (simp add: fenced_reply_def paris_object_def strip_def is_space_def pre_def rest_def mid_def post_def)
  have 1: "first_split ''```json'' (strip fenced_reply) pre rest"
  proof (rule find_first_split[OF _ s])
    show "find_first ''```json'' (strip fenced_reply) = Some (length pre)"
      by (simp add: fenced_reply_def paris_object_def strip_def is_space_def pre_def)
  qed
  have 2: "first_split ''```'' rest mid post"
  proof (rule find_first_split)
    show "find_first ''```'' rest = Some (length mid)"
      by (simp add: rest_def mid_def post_def paris_object_def)
    show "rest = mid @ ''```'' @ post" by (simp add: rest_def)
  qed
  have 3: "paris_object = strip mid"
    by (simp add: mid_def paris_object_def strip_def is_space_def)
  show ?thesis
    unfolding candidate_def
    by (rule disjI1, rule exI[of _ pre], rule exI[of _ rest], rule exI[of _ mid], rule exI[of _ post])
       (simp only: 1 2 3[symmetric] simp_thms)
qed

text \<open>
  Claim C5, as the code has it. Let the candidate of a reply be: the text between the
  first \<open>```json\<close> and the first \<open>```\<close> after it, stripped, when both are there; else the
  text between the first \<open>```\<close> and the next one, stripped, when both are there; else the
  whole stripped reply. When the candidate has a \<open>{\<close> with a \<open>}\<close> somewhere after it,
  \<open>_extract_json\<close> returns the candidate from its first \<open>{\<close> to its last \<open>}\<close>, both
  included; when it has not, \<open>_extract_json\<close> returns the candidate as it is. For the
  reply of the example it returns exactly the object inside the fence. (A fence that is
  opened and not closed is the subject of claim C10.)
\<close>

theorem extract_json_algorithm:
  "(candidate (strip response) cand \<longrightarrow>
      (has_braces cand \<longrightarrow> brace_slice_of cand (extract_json response)) \<and>
      (\<not> has_braces cand \<longrightarrow> extract_json response = cand)) \<and>
   extract_json fenced_reply = paris_object"
proof (intro conjI impI)
  assume c: "candidate (strip response) cand"
  then have u: "extract_json response = json_object cand"
    by (simp add: extract_json_def unfence_candidate)
  {
    assume "has_braces cand"
    then obtain out where o: "brace_slice_of cand out" using has_braces_slice by blast
    then show "brace_slice_of cand (extract_json response)"
      using brace_slice_json_object[OF o] u by simp
  next
    assume "\<not> has_braces cand"
    then show "extract_json response = cand" using u json_object_unchanged by simp
  }
qed (rule extract_json_fenced)

text \<open>The fenced reply of the example takes the first case, the reply \<open>hello\<close> the second.\<close>

theorem extract_json_algorithm_witness:
  "candidate (strip fenced_reply) paris_object \<and> has_braces paris_object \<and>
   brace_slice_of paris_object (extract_json fenced_reply) \<and>
   candidate (strip ''hello'') ''hello'' \<and> \<not> has_braces ''hello'' \<and> extract_json ''hello'' = ''hello''"
proof -
  have h: "has_braces paris_object"
    unfolding has_braces_def paris_object_def
    by (rule exI[of _ "[]"], rule exI[of _ "''\"location\":\"Paris\",\"weather_type\":\"current\"''"],
        rule exI[of _ "[]"]) simp
  have n: "\<not> has_braces ''hello''" by (rule no_closing_no_braces) simp
  show ?thesis
    using extract_json_algorithm[of fenced_reply paris_object] candidate_fenced h
      extract_json_algorithm[of "''hello''" "''hello''"] candidate_hello n
    by blast
qed

text \<open>
  Claim C5 as it is worded says that the result is always the part of the candidate from
  the first \<open>{\<close> to the last \<open>}\<close>. The reply \<open>hello\<close> has no brace: the candidate is
  \<open>hello\<close> and so is the result, which is no such part.
\<close>

theorem extract_json_without_braces:
  "candidate (strip ''hello'') ''hello'' \<and> extract_json ''hello'' = ''hello'' \<and>
   \<not> brace_slice_of ''hello'' (extract_json ''hello'')"
proof -
  have "\<not> brace_slice_of ''hello'' out" for out
    using brace_slice_has_opening[of "''hello''" out] by auto
  then show ?thesis using candidate_hello extract_json_hello by blast
qed

text \<open>
  Claim C9, as the code has it: for a text that, white space around it apart, begins with
  \<open>{\<close>, ends with \<open>}\<close> and contains no run of three backquotes, \<open>_extract_json\<close> returns
  the text without the surrounding white space, and applying it twice gives the same as
  applying it once.
\<close>

theorem extract_json_idempotent:
  "bare_object text \<and> \<not> sublist ''```'' (strip text) \<longrightarrow>
     extract_json text = strip text \<and> extract_json (extract_json text) = extract_json text"
proof
  assume h: "bare_object text \<and> \<not> sublist ''```'' (strip text)"
  then obtain body where b: "strip text = CHR ''{'' # body @ ''}''"
    unfolding bare_object_def by blast
  have 1: "extract_json text = strip text"
    using extract_json_bare_object[OF b] h by simp
  have s: "strip (strip text) = strip text" by (simp add: b strip_braces)
  have "extract_json (strip text) = strip (strip text)"
  proof (rule extract_json_bare_object[of _ body])
    show "strip (strip text) = CHR ''{'' # body @ ''}''" by (simp add: b strip_braces)
    show "\<not> sublist ''```'' (strip (strip text))" using h by (simp add: s)
  qed
  then show "extract_json text = strip text \<and> extract_json (extract_json text) = extract_json text"
    using 1 s by simp
qed

text \<open>The object of the example, with a blank before it and a newline after it.\<close>

theorem extract_json_idempotent_witness:
  "bare_object padded_object \<and> \<not> sublist ''```'' (strip padded_object) \<and>
   extract_json padded_object = paris_object \<and>
   extract_json (extract_json padded_object) = extract_json padded_object"
proof -
  have s: "strip padded_object = paris_object"
    by (simp add: padded_object_def paris_object_def strip_def is_space_def)
  have b: "bare_object padded_object"
    unfolding bare_object_def s
    by (rule exI[of _ "''\"location\":\"Paris\",\"weather_type\":\"current\"''"])
       (simp add: paris_object_def)
  have n: "\<not> sublist ''```'' (strip padded_object)"
    unfolding s by (rule no_occurrence) (simp add: paris_object_def)
  have r: "extract_json padded_object = strip padded_object \<and>
      extract_json (extract_json padded_object) = extract_json padded_object"
    using extract_json_idempotent[of padded_object] b n by blast
  then have "extract_json padded_object = paris_object" by (simp only: s)
  then show ?thesis using b n r by blast
qed

text \<open>
  Claim C9 as it is worded holds for every bare JSON object. The object \<open>{"a":"```"}\<close>
  has three backquotes in a string: they are taken for a fence, and the result is a lone
  double quote.
\<close>

theorem extract_json_backticks_in_object:
  "bare_object backtick_object \<and> extract_json backtick_object = [CHR 0x22] \<and>
   extract_json backtick_object \<noteq> strip backtick_object"
proof -
  have s: "strip backtick_object = backtick_object"
    by (simp add: backtick_object_def strip_def is_space_def)
  have b: "bare_object backtick_object"
    unfolding bare_object_def s
    by (rule exI[of _ "''\"a\":\"```\"''"]) (simp add: backtick_object_def)
  have e: "extract_json backtick_object = [CHR 0x22]"
    by (simp add: backtick_object_def eval_extract)
  show ?thesis using b e by (simp add: s) (simp add: backtick_object_def)
qed

lemma backtick_not_space: "\<not> is_space (CHR 0x60)" "\<not> is_space CHR ''}''" "\<not> is_space CHR ''{''"
  by (simp_all add: is_space_def)

lemma strip_unclosed_reply:
  "strip (unclosed_reply (CHR ''{'' # body @ ''}'')) = unclosed_reply (CHR ''{'' # body @ ''}'')"
  using strip_keep[of "CHR 0x60" "CHR ''}''" "''``json'' @ CHR 0x0A # CHR ''{'' # body" "[]"]
  by (simp add: unclosed_reply_def backtick_not_space)

lemma first_split_start: "first_split sub (sub @ rest) [] rest"
  by (simp add: first_split_def)

lemma no_fence_after_newline:
  "\<not> sublist ''```'' object \<Longrightarrow> \<not> sublist ''```'' (CHR 0x0A # object)"
  by (simp add: sublist_Cons_right)

lemma strip_after_newline: "strip (CHR 0x0A # s) = strip s"
  by (simp add: strip_def is_space_def)

lemma extract_json_unclosed_object:
  assumes "\<not> sublist ''```'' (CHR ''{'' # body @ ''}'')"
  shows "extract_json (unclosed_reply (CHR ''{'' # body @ ''}'')) = json_object (strip (CHR ''{'' # body))"
proof -
  let ?obj = "CHR ''{'' # body @ ''}''"
  have 1: "first_split ''```json'' (unclosed_reply ?obj) [] (CHR 0x0A # ?obj)"
    unfolding unclosed_reply_def by (rule first_split_start)
  have 2: "\<not> sublist ''```'' (CHR 0x0A # ?obj)" using assms by (rule no_fence_after_newline)
  have "unfence (unclosed_reply ?obj) = strip (butlast (CHR 0x0A # ?obj))"
    by (rule unfence_marked_unclosed[OF 1 2])
  also have "butlast (CHR 0x0A # ?obj) = CHR 0x0A # CHR ''{'' # body"
    by (simp add: butlast_append)
  finally have "unfence (unclosed_reply ?obj) = strip (CHR ''{'' # body)"
    by (simp only: strip_after_newline)
  then show ?thesis by (simp add: extract_json_def strip_unclosed_reply)
qed

lemma json_object_no_closing: "CHR ''}'' \<notin> set body \<Longrightarrow> json_object (strip (CHR ''{'' # body)) = strip (CHR ''{'' # body)"
proof (rule json_object_unchanged, rule no_closing_no_braces)
  assume "CHR ''}'' \<notin> set body"
  then have "CHR ''}'' \<notin> set (CHR ''{'' # body)" by simp
  then show "CHR ''}'' \<notin> set (strip (CHR ''{'' # body))" using set_strip by blast
qed

lemma json_object_inner_closing:
  assumes "body = b1 @ CHR ''}'' # b2" "CHR ''}'' \<notin> set b2"
  shows "json_object (strip (CHR ''{'' # body)) = CHR ''{'' # b1 @ ''}''"
proof -
  have s: "strip (CHR ''{'' # body) = CHR ''{'' # b1 @ CHR ''}'' # rev (dropWhile is_space (rev b2))"
    unfolding assms(1) by (rule strip_keep) (simp_all add: backtick_not_space)
  have "CHR ''}'' \<notin> set (rev (dropWhile is_space (rev b2)))"
    using assms(2) set_dropWhileD[of "CHR ''}''" is_space "rev b2"] by auto
  then show ?thesis
    unfolding s
    by (intro json_object_slice[where a = "[]" and m = b1 and z = "rev (dropWhile is_space (rev b2))"])
       simp_all
qed

text \<open>
  Claim C10, as the code has it. When the stripped reply has \<open>```json\<close> and no \<open>```\<close> after
  its first occurrence, the search for the closing fence gives \<open>-1\<close>, and the candidate is
  the text after the opener without its last character, stripped. For a reply made of
  \<open>```json\<close>, a newline and an object \<open>{body}\<close>: when \<open>body\<close> has no \<open>}\<close>, the result is the
  object without its closing brace (and without white space before it); when it has one,
  the result stops at the last \<open>}\<close> of \<open>body\<close>, so more than the closing brace is lost.
\<close>

theorem unclosed_marked_fence:
  "(first_split ''```json'' (strip response) pre rest \<and> \<not> sublist ''```'' rest \<longrightarrow>
      py_find (strip response) ''```'' (py_find (strip response) ''```json'' 0 + 7) = - 1 \<and>
      unfence (strip response) = strip (butlast rest) \<and>
      extract_json response = json_object (strip (butlast rest))) \<and>
   (\<not> sublist ''```'' (CHR ''{'' # body @ ''}'') \<longrightarrow>
      (CHR ''}'' \<notin> set body \<longrightarrow>
         extract_json (unclosed_reply (CHR ''{'' # body @ ''}'')) = strip (CHR ''{'' # body)) \<and>
      (body = b1 @ CHR ''}'' # b2 \<and> CHR ''}'' \<notin> set b2 \<longrightarrow>
         extract_json (unclosed_reply (CHR ''{'' # body @ ''}'')) = CHR ''{'' # b1 @ ''}''))"
proof (intro conjI impI)
  assume h: "first_split ''```json'' (strip response) pre rest \<and> \<not> sublist ''```'' rest"
  then have 1: "first_split ''```json'' (strip response) pre rest" and 2: "\<not> sublist ''```'' rest"
    by blast+
  show "py_find (strip response) ''```'' (py_find (strip response) ''```json'' 0 + 7) = - 1"
    using fence_unclosed(1)[OF 1 2] by simp
  show u: "unfence (strip response) = strip (butlast rest)"
    by (rule unfence_marked_unclosed[OF 1 2])
  show "extract_json response = json_object (strip (butlast rest))"
    by (simp add: extract_json_def u)
next
  assume "\<not> sublist ''```'' (CHR ''{'' # body @ ''}'')" "CHR ''}'' \<notin> set body"
  then show "extract_json (unclosed_reply (CHR ''{'' # body @ ''}'')) = strip (CHR ''{'' # body)"
    by (simp add: extract_json_unclosed_object json_object_no_closing)
next
  assume a: "\<not> sublist ''```'' (CHR ''{'' # body @ ''}'')" and b: "body = b1 @ CHR ''}'' # b2 \<and> CHR ''}'' \<notin> set b2"
  show "extract_json (unclosed_reply (CHR ''{'' # body @ ''}'')) = CHR ''{'' # b1 @ ''}''"
    using extract_json_unclosed_object[OF a] json_object_inner_closing[of body b1 b2] b by simp
qed

text \<open>A flat object loses its closing brace; a nested one loses its tail.\<close>

theorem unclosed_marked_fence_witness:
  "extract_json (unclosed_reply ''{\"a\":1}'') = ''{\"a\":1'' \<and>
   extract_json (unclosed_reply nested_object) = ''{\"a\":{\"b\":1}'' \<and>
   first_split ''```json'' (strip (unclosed_reply ''{\"a\":1}'')) [] (CHR 0x0A # ''{\"a\":1}'') \<and>
   unfence (strip (unclosed_reply ''{\"a\":1}'')) = ''{\"a\":1''"
proof -
  have n1: "\<not> sublist ''```'' (CHR ''{'' # ''\"a\":1'' @ ''}'')" by (rule no_occurrence) simp
  have n2: "\<not> sublist ''```'' (CHR ''{'' # ''\"a\":{\"b\":1},\"c\":2'' @ ''}'')" by (rule no_occurrence) simp
  have 1: "extract_json (unclosed_reply ''{\"a\":1}'') = ''{\"a\":1''"
    using unclosed_marked_fence[of _ _ _ "''\"a\":1''"] n1
    by (simp add: strip_def is_space_def)
  have 2: "extract_json (unclosed_reply nested_object) = ''{\"a\":{\"b\":1}''"
    using unclosed_marked_fence[of _ _ _ "''\"a\":{\"b\":1},\"c\":2''" "''\"a\":{\"b\":1''" "'',\"c\":2''"] n2
    by (simp add: nested_object_def)
  have s: "strip (unclosed_reply ''{\"a\":1}'') = ''```json'' @ CHR 0x0A # ''{\"a\":1}''"
    by (simp add: unclosed_reply_def strip_def is_space_def)
  have 3: "first_split ''```json'' (strip (unclosed_reply ''{\"a\":1}'')) [] (CHR 0x0A # ''{\"a\":1}'')"
    unfolding s by (rule first_split_start)
  have n3: "\<not> sublist ''```'' (CHR 0x0A # ''{\"a\":1}'')" by (rule no_occurrence) simp
  have 4: "unfence (strip (unclosed_reply ''{\"a\":1}'')) = ''{\"a\":1''"
    using unclosed_marked_fence[of "unclosed_reply ''{\"a\":1}''" "[]" "CHR 0x0A # ''{\"a\":1}''"] 3 n3
    by (simp add: strip_def is_space_def)
  show ?thesis using 1 2 3 4 by blast
qed

text \<open>
  Claim C10 as it is worded says that the result is the object with its closing brace
  missing, for every object. For \<open>{"a":{"b":1},"c":2}\<close> the result is \<open>{"a":{"b":1}\<close>.
\<close>

theorem unclosed_fence_nested_object:
  "extract_json (unclosed_reply nested_object) = ''{\"a\":{\"b\":1}'' \<and>
   ''{\"a\":{\"b\":1}'' \<noteq> butlast nested_object"
  by (simp add: unclosed_reply_def nested_object_def eval_extract)

section \<open>The request interpreter\<close>

lemma extract_json_prose: "extract_json prose_reply = prose_reply"
  by (simp add: prose_reply_def extract_json_def unfence_def json_object_def strip_def is_space_def
      py_in_def py_find_def py_rfind_def)


lemma extract_json_greenwich: "extract_json greenwich_reply = greenwich_reply"
  by (simp add: greenwich_reply_def extract_json_def unfence_def json_object_def strip_def is_space_def
      py_in_def py_find_def py_rfind_def py_slice_def slice_index_def)

lemma strip_no_space: "\<forall>c \<in> set s. \<not> is_space c \<Longrightarrow> strip s = s"
proof -
  assume h: "\<forall>c \<in> set s. \<not> is_space c"
  have d: "\<forall>c \<in> set xs. \<not> is_space c \<Longrightarrow> dropWhile is_space xs = xs" for xs
    by (cases xs) auto
  show ?thesis using h by (simp add: strip_def d)
qed

lemma extract_json_plain:
  assumes "\<forall>c \<in> set s. \<not> is_space c" "CHR 0x60 \<notin> set s" "CHR ''}'' \<notin> set s"
  shows "extract_json s = s"
proof -
  have 1: "strip s = s" using assms(1) by (rule strip_no_space)
  have "\<not> sublist ''```'' s"
  proof
    assume "sublist ''```'' s"
    then have "set ''```'' \<subseteq> set s" by (rule set_mono_sublist)
    then show False using assms(2) by simp
  qed
  then have 2: "unfence s = s" by (rule unfence_none)
  have 3: "json_object s = s"
    by (rule json_object_unchanged, rule no_closing_no_braces, rule assms(3))
  show ?thesis by (simp add: extract_json_def 1 2 3)
qed

lemma extract_json_deep: "extract_json deep_reply = deep_reply"
  by (rule extract_json_plain) (simp_all add: deep_reply_def is_space_def)


lemma parse_user_request_fallback:
  assumes "is_coordinate_pair user_input = Inr None"
    and "generate_response w (''Parse this: '' @ user_input) = PStr response"
    and "json_loads w (extract_json response) = Inl JSONDecodeError"
  shows "parse_user_request w user_input =
     Inr (PDict
       [(''location'', PStr ''unknown''),
        (''latitude'', PNone),
        (''longitude'', PNone),
        (''weather_type'', PStr ''current''),
        (''specific_requirements'', PStr user_input),
        (''raw_response'', PStr response)])"
  using assms
  by (simp add: parse_user_request_def call_extract_json_def andthen_def except_def
      is_JSONDecodeError_def Let_def)

lemma parse_user_request_decoded:
  assumes "is_coordinate_pair user_input = Inr None"
    and "generate_response w (''Parse this: '' @ user_input) = PStr response"
    and "json_loads w (extract_json response) = Inr v"
  shows "parse_user_request w user_input = Inr v"
  using assms
  by (simp add: parse_user_request_def call_extract_json_def andthen_def except_def Let_def)

lemma parse_user_request_raises:
  assumes "is_coordinate_pair user_input = Inr None"
    and "generate_response w (''Parse this: '' @ user_input) = PStr response"
    and "json_loads w (extract_json response) = Inl e" "e \<noteq> JSONDecodeError"
  shows "parse_user_request w user_input = Inl e"
  using assms
  by (simp add: parse_user_request_def call_extract_json_def andthen_def except_def
      is_JSONDecodeError_def Let_def)

lemma parse_user_request_not_text:
  assumes "is_coordinate_pair user_input = Inr None"
    and "\<forall>response. generate_response w (''Parse this: '' @ user_input) \<noteq> PStr response"
  shows "parse_user_request w user_input = Inl AttributeError"
  using assms
  by (simp add: parse_user_request_def call_extract_json_def andthen_def Let_def
      split: pyval.split)



lemma resolve_missing_result:
  assumes "coordinates_missing (PDict kvs) = Inr True"
    and "resolve w (PDict kvs) = Inr request'"
  shows "\<exists>x y. request' =
       PDict (AList.update ''longitude'' (PFloat y) (AList.update ''latitude'' (PFloat x) kvs))"
  using assms
  by (auto simp: resolve_def andthen_def summarizer_get_coordinates_def dict_set_def dict_get_def
      split: pyval.splits option.splits sum.splits)


lemma resolve_present: "coordinates_missing request = Inr False \<Longrightarrow> resolve w request = Inr request"
  by (simp add: resolve_def andthen_def)

lemma coordinates_missing_dict:
  "coordinates_missing (PDict kvs) =
     Inr (\<not> (truthy (case map_of kvs ''latitude'' of Some v \<Rightarrow> v | None \<Rightarrow> PNone) \<and>
              truthy (case map_of kvs ''longitude'' of Some v \<Rightarrow> v | None \<Rightarrow> PNone)))"
  by (simp add: coordinates_missing_def dict_get_def andthen_def)

lemma coordinates_missing_not_dict:
  "(\<forall>kvs. request \<noteq> PDict kvs) \<Longrightarrow> coordinates_missing request = Inl AttributeError"
  by (cases request) (simp_all add: coordinates_missing_def dict_get_def andthen_def)





text \<open>
  Claim C6, as the code has it. Let the user's input be not itself a coordinate pair, so
  that the model is asked, and let the reply be a text. When \<open>json.loads\<close> raises
  \<open>JSONDecodeError\<close> on the text extracted from the reply, \<open>parse_user_request\<close> does not
  raise: it returns the fallback request with \<open>weather_type\<close> "current",
  \<open>specific_requirements\<close> the user's input, \<open>latitude\<close> and \<open>longitude\<close> \<open>None\<close>, and the
  whole reply under \<open>raw_response\<close>. When \<open>json.loads\<close> raises any other exception,
  \<open>parse_user_request\<close> raises it.
\<close>

theorem parse_failure_fallback:
  "is_coordinate_pair user_input = Inr None \<and>
   generate_response w (''Parse this: '' @ user_input) = PStr response \<longrightarrow>
     (json_loads w (extract_json response) = Inl JSONDecodeError \<longrightarrow>
        parse_user_request w user_input =
          Inr (PDict
            [(''location'', PStr ''unknown''),
             (''latitude'', PNone),
             (''longitude'', PNone),
             (''weather_type'', PStr ''current''),
             (''specific_requirements'', PStr user_input),
             (''raw_response'', PStr response)])) \<and>
     (\<forall>e. json_loads w (extract_json response) = Inl e \<and> e \<noteq> JSONDecodeError \<longrightarrow>
        parse_user_request w user_input = Inl e)"
  using parse_user_request_fallback parse_user_request_raises by blast

lemma prose_not_decoded:
  "json_loads prose_world (extract_json ''Sorry, I cannot help with that.'') = Inl JSONDecodeError"
  using extract_json_prose by (simp add: prose_world_def prose_reply_def)

text \<open>A reply in prose, with no brace at all, is such a reply.\<close>

theorem parse_failure_fallback_witness:
  "is_coordinate_pair ''weather in Tokyo'' = Inr None \<and>
   generate_response prose_world (''Parse this: '' @ ''weather in Tokyo'') =
     PStr ''Sorry, I cannot help with that.'' \<and>
   json_loads prose_world (extract_json ''Sorry, I cannot help with that.'') = Inl JSONDecodeError \<and>
   parse_user_request prose_world ''weather in Tokyo'' =
     Inr (PDict
       [(''location'', PStr ''unknown''),
        (''latitude'', PNone),
        (''longitude'', PNone),
        (''weather_type'', PStr ''current''),
        (''specific_requirements'', PStr ''weather in Tokyo''),
        (''raw_response'', PStr ''Sorry, I cannot help with that.'')])"
proof -
  have g: "generate_response prose_world (''Parse this: '' @ ''weather in Tokyo'') =
     PStr ''Sorry, I cannot help with that.''"
    by (simp add: prose_world_def prose_reply_def)
  show ?thesis
    using parse_failure_fallback[of "''weather in Tokyo''" prose_world
        "''Sorry, I cannot help with that.''"] tokyo_not_coordinates g prose_not_decoded
    by blast
qed

text \<open>
  Claim C6 as it is worded covers every reply that fails to decode. A reply of a thousand
  \<open>[\<close> is left as it is by \<open>_extract_json\<close>, and \<open>json.loads\<close> raises \<open>RecursionError\<close>
  on it, which is no \<open>JSONDecodeError\<close>: the handler does not catch it, and
  \<open>parse_user_request\<close> raises instead of returning the fallback request.
\<close>

theorem deep_reply_raises:
  "is_coordinate_pair ''weather in Tokyo'' = Inr None \<and>
   generate_response deep_world (''Parse this: '' @ ''weather in Tokyo'') = PStr deep_reply \<and>
   extract_json deep_reply = deep_reply \<and>
   json_loads deep_world (extract_json deep_reply) = Inl RecursionError \<and>
   parse_user_request deep_world ''weather in Tokyo'' = Inl RecursionError"
proof -
  have g: "generate_response deep_world (''Parse this: '' @ ''weather in Tokyo'') = PStr deep_reply"
    by (simp add: deep_world_def)
  have l: "json_loads deep_world (extract_json deep_reply) = Inl RecursionError"
    by (simp add: extract_json_deep deep_world_def)
  have "parse_user_request deep_world ''weather in Tokyo'' = Inl RecursionError"
    by (rule parse_user_request_raises[OF tokyo_not_coordinates g l]) simp
  then show ?thesis using tokyo_not_coordinates g l extract_json_deep by simp
qed

text \<open>
  A reply that is not a text (the service sent \<open>null\<close> under \<open>content\<close>) raises
  \<open>AttributeError\<close> in \<open>_extract_json\<close>, before anything is decoded.
\<close>

lemma no_reply_text_raises:
  "parse_user_request null_world ''weather in Tokyo'' = Inl AttributeError"
  by (rule parse_user_request_not_text[OF tokyo_not_coordinates]) (simp add: null_world_def)

lemma get_coordinates_London:
  assumes "is_coordinate_pair location = Inr None" "city_loop major_cities (lower location) = None"
  shows "get_coordinates unreachable terminal location = Inr (decimal 515074 4, decimal (- 1278) 4)"
proof -
  have "geocode_nominatim unreachable terminal location = Inr None"
    by (rule geocode_nominatim_None[OF _ terminal_notices(1)]) (simp add: unreachable_def)
  then show ?thesis
    using get_coordinates_default[OF assms(1) _ assms(2) terminal_notices(2)] by simp
qed

lemma get_coordinates_Greenwich:
  "get_coordinates unreachable terminal ''Greenwich'' = Inr (decimal 515074 4, decimal (- 1278) 4)"
proof (rule get_coordinates_London)
  show "is_coordinate_pair ''Greenwich'' = Inr None"
    by (rule word_not_coordinates[of "CHR ''G''"])
       (simp_all add: clean_def strip_def remove_char_def is_space_def)
  show "city_loop major_cities (lower ''Greenwich'') = None"
    by (simp add: lower_def lower_char_def char_of_def bit_0 major_cities_def py_in_def)
qed


lemma resolve_Greenwich:
  "resolve greenwich_world greenwich_request =
     Inr (PDict [(''location'', PStr ''Greenwich''), (''latitude'', PFloat (decimal 515074 4)),
                 (''longitude'', PFloat (decimal (- 1278) 4))])"
  by (simp add: resolve_def coordinates_missing_def dict_get_def andthen_def greenwich_request_def
      summarizer_get_coordinates_def greenwich_world_def get_coordinates_Greenwich dict_set_def)

lemma Greenwich_not_coordinates: "is_coordinate_pair ''weather at Greenwich'' = Inr None"
  by (rule word_not_coordinates[of "CHR ''w''"])
     (simp_all add: clean_def strip_def remove_char_def is_space_def)


lemma parse_Greenwich: "parse_user_request greenwich_world ''weather at Greenwich'' = Inr greenwich_request"
  by (rule parse_user_request_decoded[OF Greenwich_not_coordinates, of _ greenwich_reply])
     (simp_all add: greenwich_world_def extract_json_greenwich)


lemma resolve_keeps_truthy:
  assumes "dict_get request ''latitude'' PNone = Inr lat" "truthy lat"
    and "dict_get request ''longitude'' PNone = Inr lon" "truthy lon"
  shows "resolve w request = Inr request"
  using assms by (simp add: resolve_def coordinates_missing_def andthen_def)

lemma resolve_frame:
  assumes "resolve w request = Inr request'" "key \<noteq> ''latitude''" "key \<noteq> ''longitude''"
  shows "dict_get request' key dflt = dict_get request key dflt"
proof (cases request)
  case (PDict kvs)
  show ?thesis
  proof (cases "coordinates_missing (PDict kvs) = Inr True")
    case True
    obtain x y where "request' =
        PDict (AList.update ''longitude'' (PFloat y) (AList.update ''latitude'' (PFloat x) kvs))"
      using resolve_missing_result[OF True] assms(1) PDict by blast
    then show ?thesis using assms(2,3) by (simp add: PDict dict_get_def update_conv')
  next
    case False
    then have "coordinates_missing (PDict kvs) = Inr False" by (simp add: coordinates_missing_dict)
    then show ?thesis using assms(1) PDict resolve_present by simp
  qed
qed (use assms(1) in \<open>simp_all add: resolve_def andthen_def coordinates_missing_def dict_get_def\<close>)

text \<open>
  Claim C7 says that coordinates the decoded request already carries reach the weather
  request unchanged, the resolver being called only when one is absent. The condition of
  \<open>run\<close> tests the truth value of the two fields, and a coordinate of zero is false: for
  the reply \<open>{"location":"Greenwich","latitude":51.48,"longitude":0}\<close> the resolver is
  called on "Greenwich" and, the service being unreachable, both decoded coordinates are
  replaced by London's.
\<close>

theorem zero_longitude_resolved_again:
  "greenwich_request =
     PDict [(''location'', PStr ''Greenwich''), (''latitude'', PFloat (decimal 5148 2)),
            (''longitude'', PInt 0)] \<and>
   parse_user_request greenwich_world ''weather at Greenwich'' = Inr greenwich_request \<and>
   resolve greenwich_world greenwich_request =
     Inr (PDict [(''location'', PStr ''Greenwich''), (''latitude'', PFloat (decimal 515074 4)),
                 (''longitude'', PFloat (decimal (- 1278) 4))]) \<and>
   run greenwich_world ''weather at Greenwich'' =
     Inr (PFloat (decimal 515074 4), PFloat (decimal (- 1278) 4))"
  by (simp add: run_def andthen_def parse_Greenwich resolve_Greenwich weather_arguments_def dict_item_def)
     (simp add: greenwich_request_def)






end
